theory Spec2Isabelle
  imports Main "HOL-Library.Sublist"
begin

section \<open>The browser as an environment\<close>

text \<open>
  Every file under \<^verbatim>\<open>testsprite_tests\<close> is one coroutine \<^verbatim>\<open>run_test\<close> that drives a
  headless browser through Playwright and is started by \<^verbatim>\<open>asyncio.run(run_test())\<close>.
  The scripts compute nothing themselves: all they do is call Playwright, in an order that
  depends on which calls return and which raise.  The embedding therefore keeps the
  scripts' control flow (sequencing, \<^verbatim>\<open>try/except\<close>, \<^verbatim>\<open>try/finally\<close>, \<^verbatim>\<open>for\<close>, \<^verbatim>\<open>assert\<close>,
  local variables) and takes the browser as a parameter: a \<open>world\<close> says, for the
  \<open>n\<close>-th call of a run, whether that call returns (and what) or raises.
\<close>

text \<open>
  What the variable \<^verbatim>\<open>frame\<close> holds: a \<^verbatim>\<open>Frame\<close> out of \<^verbatim>\<open>page.frames\<close> (in the settle
  loop) or a \<^verbatim>\<open>Page\<close> out of \<^verbatim>\<open>context.pages\<close> (in the steps).  Pages and frames are
  identified by numbers.
\<close>

datatype target = OfPage nat | OfFrame nat

text \<open>
  A Playwright \<^verbatim>\<open>Locator\<close> is a description, not an element: \<^verbatim>\<open>frame.locator(sel)\<close>,
  \<^verbatim>\<open>loc.nth(i)\<close> and \<^verbatim>\<open>loc.locator(sel)\<close> are synchronous, touch nothing in the browser
  and cannot fail.
\<close>

datatype locator =
    Locator target string
  | Nth locator nat
  | Within locator string

fun root :: "locator \<Rightarrow> target" where
  "root (Locator t sel) = t"
| "root (Nth l i) = root l"
| "root (Within l sel) = root l"

text \<open>The calls the scripts make, with the arguments they pass.\<close>

datatype call =
    PwStart
  | Launch bool "string list"
  | NewContext
  | SetDefaultTimeout nat
  | NewPage
  | Goto nat string "string option" nat
  | WaitForLoadState target string nat
  | PageFrames nat
  | ContextPages
  | WaitForTimeout nat nat
  | Click locator "nat option"
  | Fill locator string
  | FrameUrl target
  | IsVisible locator
  | Count locator
  | WaitFor locator string nat
  | TextContent locator
  | Title nat
  | AsyncioSleep nat
  | ContextClose
  | BrowserClose
  | PwStop

text \<open>
  A Playwright call that fails raises \<^verbatim>\<open>async_api.Error\<close> or its subclass
  \<^verbatim>\<open>async_api.TimeoutError\<close>; both are caught by \<^verbatim>\<open>except async_api.Error\<close>.  The
  interpreter raises the other exceptions.  Every call is taken to return or raise; a call
  that never comes back, and an interruption of the script from outside, are not modelled.
\<close>

datatype lib_exc = PlaywrightError | PlaywrightTimeoutError

datatype exc =
    Playwright lib_exc
  | AssertionError "string option"
  | NameError string
  | UnboundLocalError string
  | IndexError
  | TypeError

text \<open>
  The environment.  The first argument of every field is the number of calls made so far
  in the run, so that the same call may be answered differently at different times.
  The three properties (\<^verbatim>\<open>context.pages\<close>, \<^verbatim>\<open>page.frames\<close>, \<^verbatim>\<open>frame.url\<close>) are
  synchronous reads and do not raise.
\<close>

record world =
  returns_none :: "nat \<Rightarrow> call \<Rightarrow> lib_exc + unit"
  returns_obj :: "nat \<Rightarrow> call \<Rightarrow> lib_exc + nat"
  returns_int :: "nat \<Rightarrow> call \<Rightarrow> lib_exc + nat"
  returns_bool :: "nat \<Rightarrow> call \<Rightarrow> lib_exc + bool"
  returns_str :: "nat \<Rightarrow> call \<Rightarrow> lib_exc + string"
  returns_text :: "nat \<Rightarrow> call \<Rightarrow> lib_exc + string option"
  pages_at :: "nat \<Rightarrow> call \<Rightarrow> nat list"
  frames_at :: "nat \<Rightarrow> call \<Rightarrow> nat list"
  url_at :: "nat \<Rightarrow> call \<Rightarrow> string"

section \<open>The interpreter state and the statements\<close>

text \<open>
  The local variables of \<^verbatim>\<open>run_test\<close> that outlive a statement, and the calls made so far,
  oldest first.  \<^verbatim>\<open>pw\<close>, \<^verbatim>\<open>browser\<close> and \<^verbatim>\<open>context\<close> start as \<^verbatim>\<open>None\<close> (lines 5 to 7);
  \<^verbatim>\<open>page\<close> and \<^verbatim>\<open>frame\<close> start unbound.
\<close>

record state =
  trace :: "call list"
  pw_var :: "nat option"
  browser_var :: "nat option"
  context_var :: "nat option"
  page_var :: "nat option"
  frame_var :: "target option"

definition init_state :: state where
  "init_state = \<lparr>trace = [], pw_var = None, browser_var = None, context_var = None,
     page_var = None, frame_var = None\<rparr>"

type_synonym 'a prog = "world \<Rightarrow> state \<Rightarrow> (exc + 'a) \<times> state"

definition ret :: "'a \<Rightarrow> 'a prog" where
  "ret x = (\<lambda>w s. (Inr x, s))"

definition raise :: "exc \<Rightarrow> 'a prog" where
  "raise e = (\<lambda>w s. (Inl e, s))"

definition bind :: "'a prog \<Rightarrow> ('a \<Rightarrow> 'b prog) \<Rightarrow> 'b prog" where
  "bind m f = (\<lambda>w s. case m w s of (Inl e, s') \<Rightarrow> (Inl e, s') | (Inr x, s') \<Rightarrow> f x w s')"

definition assign :: "(state \<Rightarrow> state) \<Rightarrow> unit prog" where
  "assign upd = (\<lambda>w s. (Inr (), upd s))"

text \<open>A block of statements: the first one that raises ends the block.\<close>

fun seq_all :: "unit prog list \<Rightarrow> unit prog" where
  "seq_all [] w s = (Inr (), s)"
| "seq_all (m # ms) w s =
     (case m w s of (Inl e, s') \<Rightarrow> (Inl e, s') | (Inr u, s') \<Rightarrow> seq_all ms w s')"

text \<open>\<^verbatim>\<open>for x in xs: body\<close>, over the list as it was when the loop began.\<close>

fun for_each :: "'a list \<Rightarrow> ('a \<Rightarrow> unit prog) \<Rightarrow> unit prog" where
  "for_each [] body w s = (Inr (), s)"
| "for_each (x # xs) body w s =
     (case body x w s of (Inl e, s') \<Rightarrow> (Inl e, s') | (Inr u, s') \<Rightarrow> for_each xs body w s')"

definition log :: "call \<Rightarrow> state \<Rightarrow> state" where
  "log c s = s\<lparr>trace := trace s @ [c]\<rparr>"

text \<open>\<^verbatim>\<open>await obj.method(args)\<close>: the call is made, and it returns or raises.\<close>

definition await :: "(world \<Rightarrow> nat \<Rightarrow> call \<Rightarrow> lib_exc + 'a) \<Rightarrow> call \<Rightarrow> 'a prog" where
  "await answer c = (\<lambda>w s. case answer w (length (trace s)) c of
       Inl e \<Rightarrow> (Inl (Playwright e), log c s)
     | Inr v \<Rightarrow> (Inr v, log c s))"

text \<open>A synchronous property read or setter: it is made and cannot raise.\<close>

definition sync :: "(world \<Rightarrow> nat \<Rightarrow> call \<Rightarrow> 'a) \<Rightarrow> call \<Rightarrow> 'a prog" where
  "sync answer c = (\<lambda>w s. (Inr (answer w (length (trace s)) c), log c s))"

definition emit :: "call \<Rightarrow> unit prog" where
  "emit c = (\<lambda>w s. (Inr (), log c s))"

text \<open>\<^verbatim>\<open>try: m  except async_api.Error: pass\<close>.\<close>

definition try_except_Error :: "unit prog \<Rightarrow> unit prog" where
  "try_except_Error m = (\<lambda>w s. case m w s of
       (Inl (Playwright e), s') \<Rightarrow> (Inr (), s')
     | (r, s') \<Rightarrow> (r, s'))"

text \<open>
  \<^verbatim>\<open>try: body  finally: fin\<close>: \<open>fin\<close> runs after \<open>body\<close> however \<open>body\<close> ended; if \<open>fin\<close>
  raises, that exception leaves the statement, otherwise the outcome of \<open>body\<close> does.
\<close>

definition try_finally :: "'a prog \<Rightarrow> unit prog \<Rightarrow> 'a prog" where
  "try_finally body fin = (\<lambda>w s. case body w s of (r, s1) \<Rightarrow>
       (case fin w s1 of (Inl e, s2) \<Rightarrow> (Inl e, s2) | (Inr u, s2) \<Rightarrow> (r, s2)))"

text \<open>Reading \<^verbatim>\<open>page\<close> and \<^verbatim>\<open>frame\<close>: an unbound local raises.\<close>

definition get_page :: "nat prog" where
  "get_page = (\<lambda>w s. case page_var s of
       None \<Rightarrow> (Inl (UnboundLocalError ''page''), s) | Some p \<Rightarrow> (Inr p, s))"

definition get_frame :: "target prog" where
  "get_frame = (\<lambda>w s. case frame_var s of
       None \<Rightarrow> (Inl (UnboundLocalError ''frame''), s) | Some f \<Rightarrow> (Inr f, s))"

text \<open>\<^verbatim>\<open>assert cond, msg\<close> and \<^verbatim>\<open>assert cond\<close>.\<close>

definition py_assert :: "bool prog \<Rightarrow> string option \<Rightarrow> unit prog" where
  "py_assert cond msg = bind cond (\<lambda>b. if b then ret () else raise (AssertionError msg))"

section \<open>The skeleton shared by all eight scripts\<close>

text \<open>
  Lines 11 to 45 are the same text in every file.  Each of \<^verbatim>\<open>pw\<close>, \<^verbatim>\<open>browser\<close> and
  \<^verbatim>\<open>context\<close> is used as a receiver only by statements that come after its assignment in the
  \<^verbatim>\<open>try\<close> block, so it is bound whenever it is used; the model does not read it back.
\<close>

definition launch_args :: "string list" where
  "launch_args = [''--window-size=1280,720'', ''--disable-dev-shm-usage'', ''--ipc=host'',
     ''--single-process'']"

definition start_playwright :: "unit prog" where
  "start_playwright =
     bind (await returns_obj PwStart) (\<lambda>h. assign (\<lambda>s. s\<lparr>pw_var := Some h\<rparr>))"

definition launch_browser :: "unit prog" where
  "launch_browser =
     bind (await returns_obj (Launch True launch_args))
       (\<lambda>b. assign (\<lambda>s. s\<lparr>browser_var := Some b\<rparr>))"

definition new_context :: "unit prog" where
  "new_context =
     bind (await returns_obj NewContext) (\<lambda>c. assign (\<lambda>s. s\<lparr>context_var := Some c\<rparr>))"

definition set_default_timeout :: "unit prog" where
  "set_default_timeout = emit (SetDefaultTimeout 5000)"

definition new_page :: "unit prog" where
  "new_page = bind (await returns_obj NewPage) (\<lambda>p. assign (\<lambda>s. s\<lparr>page_var := Some p\<rparr>))"

text \<open>Line 32: \<^verbatim>\<open>await page.goto("http://localhost:3000", wait_until="commit", timeout=10000)\<close>.\<close>

definition goto_home :: "unit prog" where
  "goto_home = bind get_page (\<lambda>p.
     await returns_none (Goto p ''http://localhost:3000'' (Some ''commit'') 10000))"

text \<open>Lines 35 to 38.\<close>

definition settle_page :: "unit prog" where
  "settle_page = try_except_Error (bind get_page (\<lambda>p.
     await returns_none (WaitForLoadState (OfPage p) ''domcontentloaded'' 3000)))"

text \<open>Lines 41 to 45; the loop variable is the local \<^verbatim>\<open>frame\<close>.\<close>

definition settle_frame :: "nat \<Rightarrow> unit prog" where
  "settle_frame f = bind (assign (\<lambda>s. s\<lparr>frame_var := Some (OfFrame f)\<rparr>)) (\<lambda>u.
     try_except_Error (bind get_frame (\<lambda>fr.
       await returns_none (WaitForLoadState fr ''domcontentloaded'' 3000))))"

definition settle_frames :: "unit prog" where
  "settle_frames = bind get_page (\<lambda>p.
     bind (sync frames_at (PageFrames p)) (\<lambda>fs. for_each fs settle_frame))"

definition prologue :: "unit prog list" where
  "prologue = [start_playwright, launch_browser, new_context, set_default_timeout, new_page,
     goto_home, settle_page, settle_frames]"

text \<open>The \<^verbatim>\<open>finally\<close> block, the same in every file.\<close>

definition close_context :: "unit prog" where
  "close_context = (\<lambda>w s. case context_var s of
       None \<Rightarrow> (Inr (), s) | Some c \<Rightarrow> await returns_none ContextClose w s)"

definition close_browser :: "unit prog" where
  "close_browser = (\<lambda>w s. case browser_var s of
       None \<Rightarrow> (Inr (), s) | Some b \<Rightarrow> await returns_none BrowserClose w s)"

definition stop_playwright :: "unit prog" where
  "stop_playwright = (\<lambda>w s. case pw_var s of
       None \<Rightarrow> (Inr (), s) | Some h \<Rightarrow> await returns_none PwStop w s)"

definition finally_block :: "unit prog" where
  "finally_block = seq_all [close_context, close_browser, stop_playwright]"

text \<open>
  \<^verbatim>\<open>run_test\<close> with the statements of one script between the skeleton's two halves, and
  \<^verbatim>\<open>asyncio.run(run_test())\<close>, which starts it with nothing bound.
\<close>

definition run_test :: "unit prog list \<Rightarrow> unit prog" where
  "run_test steps = try_finally (seq_all (prologue @ steps)) finally_block"

definition asyncio_run :: "unit prog list \<Rightarrow> world \<Rightarrow> (exc + unit) \<times> state" where
  "asyncio_run steps w = run_test steps w init_state"

section \<open>The statements the scripts are made of\<close>

text \<open>\<^verbatim>\<open>frame = context.pages[-1]\<close>.\<close>

definition last_page :: "unit prog" where
  "last_page = bind (sync pages_at ContextPages) (\<lambda>ps.
     case ps of [] \<Rightarrow> raise IndexError
     | p # ps' \<Rightarrow> assign (\<lambda>s. s\<lparr>frame_var := Some (OfPage (last (p # ps')))\<rparr>))"

text \<open>
  The generated step, for a click:
  \<^verbatim>\<open>frame = context.pages[-1]\<close>,
  \<^verbatim>\<open>elem = frame.locator(path).nth(0)\<close>,
  \<^verbatim>\<open>await page.wait_for_timeout(3000); await elem.click(timeout=5000)\<close>.
\<close>

definition click_step :: "string \<Rightarrow> unit prog" where
  "click_step path = bind last_page (\<lambda>u. bind get_frame (\<lambda>fr.
     let elem = Nth (Locator fr path) 0 in
     bind get_page (\<lambda>p. bind (await returns_none (WaitForTimeout p 3000)) (\<lambda>u.
       await returns_none (Click elem (Some 5000))))))"

text \<open>The same for \<^verbatim>\<open>await elem.fill(value)\<close>.\<close>

definition fill_step :: "string \<Rightarrow> string \<Rightarrow> unit prog" where
  "fill_step path v = bind last_page (\<lambda>u. bind get_frame (\<lambda>fr.
     let elem = Nth (Locator fr path) 0 in
     bind get_page (\<lambda>p. bind (await returns_none (WaitForTimeout p 3000)) (\<lambda>u.
       await returns_none (Fill elem v)))))"

text \<open>\<^verbatim>\<open>await page.goto(url, timeout=10000)\<close>: no \<^verbatim>\<open>wait_until\<close> is passed.\<close>

definition goto_step :: "string \<Rightarrow> unit prog" where
  "goto_step url = bind get_page (\<lambda>p. await returns_none (Goto p url None 10000))"

text \<open>
  \<^verbatim>\<open>await page.mouse.wheel(0, window.innerHeight)\<close>: the callee \<^verbatim>\<open>page.mouse.wheel\<close> is
  evaluated, then the arguments; no file binds the name \<^verbatim>\<open>window\<close>, so evaluating the
  second argument raises before any call is made.
\<close>

definition scroll_step :: "unit prog" where
  "scroll_step = bind get_page (\<lambda>p. raise (NameError ''window''))"

definition asyncio_sleep :: "nat \<Rightarrow> unit prog" where
  "asyncio_sleep n = emit (AsyncioSleep n)"

text \<open>\<^verbatim>\<open>assert await loc.count() > 0\<close> and \<^verbatim>\<open>assert await loc.is_visible(), msg\<close>.\<close>

definition count_positive :: "locator \<Rightarrow> unit prog" where
  "count_positive loc = py_assert (bind (await returns_int (Count loc)) (\<lambda>n. ret (0 < n))) None"

definition frame_count_positive :: "string \<Rightarrow> unit prog" where
  "frame_count_positive sel = bind get_frame (\<lambda>fr. count_positive (Locator fr sel))"

definition frame_visible :: "string \<Rightarrow> string \<Rightarrow> unit prog" where
  "frame_visible sel msg = py_assert
     (bind get_frame (\<lambda>fr. await returns_bool (IsVisible (Locator fr sel)))) (Some msg)"

text \<open>\<^verbatim>\<open>await page.locator(sel).count()\<close> and \<^verbatim>\<open>await page.locator(sel).text_content()\<close>.\<close>

definition page_count :: "string \<Rightarrow> nat prog" where
  "page_count sel = bind get_page (\<lambda>p. await returns_int (Count (Locator (OfPage p) sel)))"

definition page_text_content :: "string \<Rightarrow> string option prog" where
  "page_text_content sel =
     bind get_page (\<lambda>p. await returns_text (TextContent (Locator (OfPage p) sel)))"

text \<open>The four paths that most scripts share.\<close>

definition sign_in_link :: string where
  "sign_in_link = ''xpath=html/body/div/header/div/div[2]/div/a''"

definition email_input :: string where
  "email_input = ''xpath=html/body/div/main/div/div/div[2]/form/div/input''"

definition password_input :: string where
  "password_input = ''xpath=html/body/div/main/div/div/div[2]/form/div[2]/input''"

definition submit_button :: string where
  "submit_button = ''xpath=html/body/div/main/div/div/div[2]/form/button''"

definition generic_failure :: string where
  "generic_failure = ''Test plan execution failed: generic failure assertion.''"

section \<open>The scripts\<close>

subsection \<open>TC001: email and password authentication\<close>

definition tc001_steps :: "unit prog list" where
  "tc001_steps =
    [click_step ''xpath=html/body/div/header/div/div[2]/div/a[2]'',
     fill_step ''xpath=html/body/div/main/div/div/div[2]/form/div/input'' ''Test Candidate'',
     fill_step ''xpath=html/body/div/main/div/div/div[2]/form/div[2]/input''
       ''candidate@example.com'',
     fill_step ''xpath=html/body/div/main/div/div/div[2]/form/div[3]/input'' ''Password123!'',
     click_step ''xpath=html/body/div/main/div/div/div[2]/form/div[4]/button'',
     scroll_step,
     click_step ''xpath=html/body/div[2]/div/div/div[2]'',
     click_step ''xpath=html/body/div/main/div/div/div[2]/form/div[4]/button'',
     click_step ''xpath=html/body/div[2]/div/div/div'',
     click_step ''xpath=html/body/div/main/div/div/div[2]/form/button'',
     py_assert (ret False) (Some generic_failure),
     asyncio_sleep 5]"

subsection \<open>TC002: recruiter login and access control\<close>

text \<open>
  Line 77: \<^verbatim>\<open>'/recruiter/dashboard' in frame.url or await frame.locator(...).is_visible()\<close>;
  \<^verbatim>\<open>or\<close> evaluates its right operand only when the left one is false.
\<close>

definition on_recruiter_dashboard :: "bool prog" where
  "on_recruiter_dashboard = bind get_frame (\<lambda>fr. bind (sync url_at (FrameUrl fr)) (\<lambda>url.
     if sublist ''/recruiter/dashboard'' url then ret True
     else bind get_frame (\<lambda>fr'.
       await returns_bool (IsVisible (Locator fr' ''text=Recruiter Dashboard'')))))"

definition tc002_actions :: "unit prog list" where
  "tc002_actions =
    [click_step sign_in_link,
     fill_step email_input ''recruiter@example.com'',
     fill_step password_input ''ValidPassword123'',
     click_step submit_button,
     click_step ''xpath=html/body/div/main/div/div/div[2]/form[2]/button'']"

definition tc002_checks :: "unit prog list" where
  "tc002_checks =
    [py_assert on_recruiter_dashboard (Some ''Recruiter dashboard not loaded or URL mismatch''),
     frame_visible ''text=Post a Job'' ''Post a Job feature not accessible'',
     frame_visible ''text=Application Management''
       ''Application Management feature not accessible'',
     frame_visible ''text=Interviewing'' ''Interviewing feature not accessible'']"

definition tc002_steps :: "unit prog list" where
  "tc002_steps = tc002_actions @ tc002_checks @ [asyncio_sleep 5]"

subsection \<open>TC007: role based dashboards\<close>

definition tc007_actions :: "unit prog list" where
  "tc007_actions =
    [click_step sign_in_link,
     fill_step email_input ''candidate@example.com'',
     fill_step password_input ''CandidatePass123'',
     click_step submit_button,
     click_step sign_in_link,
     fill_step email_input ''recruiter@example.com'',
     fill_step password_input ''RecruiterPass123'',
     click_step submit_button,
     click_step sign_in_link,
     fill_step email_input ''admin@example.com'',
     fill_step password_input ''AdminPass123'',
     click_step submit_button]"

definition tc007_checks :: "unit prog list" where
  "tc007_checks =
    [last_page,
     frame_count_positive ''text=Applications'',
     frame_count_positive ''text=Interviews'',
     frame_count_positive ''text=Resume Status'',
     frame_count_positive ''text=Job Postings'',
     frame_count_positive ''text=Team Management'',
     frame_count_positive ''text=Applicant Tracking'',
     frame_count_positive ''text=User Management'',
     frame_count_positive ''text=System Health'',
     frame_count_positive ''text=Analytics'']"

definition tc007_steps :: "unit prog list" where
  "tc007_steps = tc007_actions @ tc007_checks @ [asyncio_sleep 5]"

subsection \<open>TC011: candidate application and status tracking\<close>

definition tc011_steps :: "unit prog list" where
  "tc011_steps =
    [click_step ''xpath=html/body/div/header/div/div/nav/a[2]'',
     click_step sign_in_link,
     fill_step email_input ''candidate@example.com'',
     fill_step password_input ''CandidatePass123'',
     click_step submit_button,
     fill_step ''xpath=html/body/div/main/div/section/div/div/div/form/div/div/input''
       ''Software Engineer'',
     fill_step ''xpath=html/body/div/main/div/section/div/div/div/form/div/div[2]/input''
       ''New York'',
     click_step ''xpath=html/body/div/main/div/section/div/div/div/form/div[2]/button'',
     goto_step ''http://localhost:3000/jobs'',
     fill_step ''xpath=html/body/div/main/div/div/div/div/form/div/div/input''
       ''Software Engineer'',
     fill_step ''xpath=html/body/div/main/div/div/div/div/form/div/div[2]/input'' ''New York'',
     click_step ''xpath=html/body/div/main/div/div/div/div/form/div[2]/button'',
     py_assert (ret False) (Some generic_failure),
     asyncio_sleep 5]"

subsection \<open>TC013: system build and deployment\<close>

definition tc013_build_checks :: "unit prog list" where
  "tc013_build_checks =
    [bind (page_count ''text=error'') (\<lambda>build_status.
       py_assert (ret (build_status = 0)) (Some ''Critical errors found during build process.'')),
     goto_step ''http://localhost:3000/test-results'',
     bind (page_count ''text=fail'') (\<lambda>test_failures.
       py_assert (ret (test_failures = 0))
         (Some ''Some tests have failed in the test suite.'')),
     goto_step ''http://localhost:3000'',
     bind (bind get_page (\<lambda>p. await returns_str (Title p))) (\<lambda>page_title.
       py_assert (ret (sublist ''JobPortal Pro'' page_title))
         (Some ''Deployed application main page title is incorrect or missing.'')),
     bind (page_count ''text=runtime error'') (\<lambda>runtime_errors.
       py_assert (ret (runtime_errors = 0))
         (Some ''Runtime errors found in deployed application.''))]"

definition tc013_build_steps :: "unit prog list" where
  "tc013_build_steps =
    [goto_step ''http://localhost:3000/build'',
     click_step ''xpath=html/body/div/header/div/div/a'',
     scroll_step,
     scroll_step,
     click_step sign_in_link,
     fill_step email_input ''admin@example.com'',
     fill_step password_input ''AdminPass123'',
     click_step submit_button,
     goto_step ''http://localhost:3000'']
    @ tc013_build_checks @ [asyncio_sleep 5]"

subsection \<open>TC013: role based dashboard data\<close>

definition tc013_role_actions :: "unit prog list" where
  "tc013_role_actions =
    [click_step sign_in_link,
     fill_step email_input ''candidate@example.com'',
     fill_step password_input ''CandidatePass123'',
     click_step submit_button,
     click_step sign_in_link,
     fill_step email_input ''recruiter@example.com'',
     fill_step password_input ''RecruiterPass123'',
     click_step submit_button,
     click_step sign_in_link,
     fill_step email_input ''admin@example.com'',
     fill_step password_input ''AdminPass123'',
     click_step submit_button]"

text \<open>
  Lines 115 to 138.  \<^verbatim>\<open>frame\<close> is not assigned here: every \<^verbatim>\<open>frame.locator(...)\<close> reads
  the value the last step left.  \<^verbatim>\<open>logout_button\<close> is built once (line 121) and clicked
  twice (lines 122 and 131), without a timeout argument.
\<close>

definition tc013_role_checks :: "unit prog" where
  \<open>tc013_role_checks =
     bind get_frame (\<lambda>fr.
     let candidate_dashboard = Locator fr ''xpath=//div[@id="candidate-dashboard"]'' in
     seq_all
      [await returns_none (WaitFor candidate_dashboard ''visible'' 5000),
       count_positive (Within candidate_dashboard ''text=Applications''),
       count_positive (Within candidate_dashboard ''text=Match Scores''),
       count_positive (Within candidate_dashboard ''text=Career Insights''),
       bind get_frame (\<lambda>fr.
       let logout_button = Locator fr ''xpath=//button[text()="Logout"]'' in
       seq_all
        [await returns_none (Click logout_button None),
         bind get_page (\<lambda>p. await returns_none (WaitForTimeout p 3000)),
         bind get_frame (\<lambda>fr.
         let recruiter_dashboard = Locator fr ''xpath=//div[@id="recruiter-dashboard"]'' in
         seq_all
          [await returns_none (WaitFor recruiter_dashboard ''visible'' 5000),
           count_positive (Within recruiter_dashboard ''text=Job Posts''),
           count_positive (Within recruiter_dashboard ''text=Application Pipeline''),
           count_positive (Within recruiter_dashboard ''text=Hiring Credits'')]),
         await returns_none (Click logout_button None),
         bind get_page (\<lambda>p. await returns_none (WaitForTimeout p 3000)),
         bind get_frame (\<lambda>fr.
         let admin_dashboard = Locator fr ''xpath=//div[@id="admin-dashboard"]'' in
         seq_all
          [await returns_none (WaitFor admin_dashboard ''visible'' 5000),
           count_positive (Within admin_dashboard ''text=System Analytics''),
           count_positive (Within admin_dashboard ''text=Feature Flags''),
           count_positive (Within admin_dashboard ''text=User Overview'')])])])\<close>

definition tc013_role_steps :: "unit prog list" where
  "tc013_role_steps = tc013_role_actions @ [tc013_role_checks, asyncio_sleep 5]"

subsection \<open>TC015: interview management\<close>

definition tc015_steps :: "unit prog list" where
  "tc015_steps =
    [click_step sign_in_link,
     fill_step email_input ''recruiter@example.com'',
     fill_step password_input ''SecurePass123'',
     click_step submit_button,
     click_step sign_in_link,
     fill_step email_input ''recruiter@example.com'',
     fill_step password_input ''SecurePass123'',
     click_step submit_button,
     click_step sign_in_link,
     fill_step email_input ''recruiter@example.com'',
     click_step ''xpath=html/body/div/main/div/div/div[2]/form[2]/button'',
     goto_step ''http://localhost:3000/recruiter/dashboard'',
     goto_step ''http://localhost:3000'',
     click_step ''xpath=html/body/div/main/div/section[5]/div/div/a[2]'',
     click_step ''xpath=html/body/div/main/div/div/div[2]/div[2]/a'',
     fill_step email_input ''recruiter@example.com'',
     fill_step password_input ''SecurePass123'',
     click_step submit_button,
     click_step ''xpath=html/body/div/main/div/section[5]/div/div/a[2]'',
     click_step ''xpath=html/body/div/main/div/div/div[2]/div[2]/a'',
     py_assert (ret False) (Some generic_failure),
     asyncio_sleep 5]"

subsection \<open>TC016: automated tests and coverage\<close>

text \<open>
  \<^verbatim>\<open>extract_coverage_percentage\<close> (lines 76 to 79): \<^verbatim>\<open>re.search(r'(\d+)%', text)\<close> finds the
  leftmost position from which a run of digits is followed by a percent sign and the
  function returns that run as a number, or 0 when there is none.  \<^verbatim>\<open>text_content()\<close>
  may return \<^verbatim>\<open>None\<close>, on which \<^verbatim>\<open>re.search\<close> raises a \<^verbatim>\<open>TypeError\<close>.  Digits are the
  ASCII ones.
\<close>

definition is_digit :: "char \<Rightarrow> bool" where
  "is_digit c = (48 \<le> (of_char c :: nat) \<and> (of_char c :: nat) \<le> 57)"

fun search_percent :: "string \<Rightarrow> string option" where
  "search_percent [] = None"
| "search_percent (c # cs) =
     (let ds = takeWhile is_digit (c # cs); rest = dropWhile is_digit (c # cs)
      in if ds \<noteq> [] \<and> (case rest of [] \<Rightarrow> False | r # rs \<Rightarrow> r = CHR ''%'') then Some ds
         else search_percent cs)"

definition int_of_digits :: "string \<Rightarrow> nat" where
  "int_of_digits ds = foldl (\<lambda>n c. 10 * n + (of_char c - 48)) 0 ds"

definition extract_coverage_percentage :: "string option \<Rightarrow> nat prog" where
  "extract_coverage_percentage text = (case text of
       None \<Rightarrow> raise TypeError
     | Some t \<Rightarrow> (case search_percent t of
         None \<Rightarrow> ret 0 | Some ds \<Rightarrow> ret (int_of_digits ds)))"

text \<open>The decimal numeral that an f-string prints for a natural number.\<close>

fun show_nat :: "nat \<Rightarrow> string" where
  "show_nat n = (if n < 10 then [char_of (48 + n)]
     else show_nat (n div 10) @ [char_of (48 + n mod 10)])"

definition tc016_checks :: "unit prog" where
  "tc016_checks =
     bind (page_count ''text=Critical failure'') (\<lambda>critical.
     bind (page_count ''text=High severity failure'') (\<lambda>high.
     let testFailures = critical + high in
     bind (py_assert (ret (testFailures = 0))
       (Some ''There are critical or high severity test failures detected.'')) (\<lambda>u.
     bind (page_text_content ''text=Authentication Coverage:'') (\<lambda>authCoverageText.
     bind (page_text_content ''text=Job Posting Coverage:'') (\<lambda>jobPostingCoverageText.
     bind (page_text_content ''text=Payments Coverage:'') (\<lambda>paymentsCoverageText.
     bind (extract_coverage_percentage authCoverageText) (\<lambda>authCoverage.
     bind (extract_coverage_percentage jobPostingCoverageText) (\<lambda>jobPostingCoverage.
     bind (extract_coverage_percentage paymentsCoverageText) (\<lambda>paymentsCoverage.
     seq_all
      [py_assert (ret (80 \<le> authCoverage))
         (Some (''Authentication coverage below threshold: '' @ show_nat authCoverage @ ''%'')),
       py_assert (ret (80 \<le> jobPostingCoverage))
         (Some (''Job Posting coverage below threshold: '' @ show_nat jobPostingCoverage
            @ ''%'')),
       py_assert (ret (80 \<le> paymentsCoverage))
         (Some (''Payments coverage below threshold: '' @ show_nat paymentsCoverage
            @ ''%''))])))))))))"

definition tc016_steps :: "unit prog list" where
  "tc016_steps =
    [goto_step ''http://localhost:3000/test'',
     click_step ''xpath=html/body/div/header/div/div/a'',
     scroll_step,
     scroll_step,
     tc016_checks,
     asyncio_sleep 5]"

definition all_scripts :: "unit prog list list" where
  "all_scripts = [tc001_steps, tc002_steps, tc007_steps, tc011_steps, tc013_build_steps,
     tc013_role_steps, tc015_steps, tc016_steps]"

section \<open>Notions used in the statements and proofs\<close>

subsection \<open>Relations between the state before and after a statement\<close>

text \<open>
  \<open>relates R m\<close>: in every environment and from every state, the state after the statement
  \<open>m\<close> is related by \<open>R\<close> to the state before it, whether \<open>m\<close> returns or raises.  For a
  reflexive and transitive \<open>R\<close> this carries over to sequences, loops and \<^verbatim>\<open>try\<close> statements.
\<close>

definition relates :: "(world \<Rightarrow> state \<Rightarrow> state \<Rightarrow> bool) \<Rightarrow> 'a prog \<Rightarrow> bool" where
  "relates R m = (\<forall>w s. R w s (snd (m w s)))"

definition preorder_on_states :: "(world \<Rightarrow> state \<Rightarrow> state \<Rightarrow> bool) \<Rightarrow> bool" where
  "preorder_on_states R = ((\<forall>w s. R w s s) \<and> (\<forall>w s t u. R w s t \<longrightarrow> R w t u \<longrightarrow> R w s u))"

text \<open>The calls made by the statements that follow the skeleton's first half.\<close>

fun step_call :: "call \<Rightarrow> bool" where
  "step_call (Goto p url wait_until t) = (wait_until = None \<and> t = 10000)"
| "step_call ContextPages = True"
| "step_call (WaitForTimeout p t) = True"
| "step_call (Click l t) = True"
| "step_call (Fill l v) = True"
| "step_call (FrameUrl f) = True"
| "step_call (IsVisible l) = True"
| "step_call (Count l) = True"
| "step_call (WaitFor l st t) = True"
| "step_call (TextContent l) = True"
| "step_call (Title p) = True"
| "step_call (AsyncioSleep n) = True"
| "step_call c = False"

fun teardown_call :: "call \<Rightarrow> bool" where
  "teardown_call ContextClose = True"
| "teardown_call BrowserClose = True"
| "teardown_call PwStop = True"
| "teardown_call c = False"

text \<open>
  A relation tolerates the steps when it is kept by every call of a step and by every
  assignment to \<^verbatim>\<open>frame\<close>.  The two relations used: the statement only adds calls of a given
  set to the trace, and the statement leaves \<^verbatim>\<open>pw\<close>, \<^verbatim>\<open>browser\<close>, \<^verbatim>\<open>context\<close> and \<^verbatim>\<open>page\<close> as they
  were.
\<close>

definition tolerates :: "(world \<Rightarrow> state \<Rightarrow> state \<Rightarrow> bool) \<Rightarrow> bool" where
  "tolerates R = (preorder_on_states R
     \<and> (\<forall>c w s. step_call c \<longrightarrow> R w s (log c s))
     \<and> (\<forall>w s v. R w s (s\<lparr>frame_var := v\<rparr>)))"

definition emits :: "call set \<Rightarrow> world \<Rightarrow> state \<Rightarrow> state \<Rightarrow> bool" where
  "emits A w s s' = (\<exists>cs. trace s' = trace s @ cs \<and> set cs \<subseteq> A)"

definition keeps_session :: "world \<Rightarrow> state \<Rightarrow> state \<Rightarrow> bool" where
  "keeps_session w s s' = (pw_var s' = pw_var s \<and> browser_var s' = browser_var s
     \<and> context_var s' = context_var s \<and> page_var s' = page_var s)"

subsection \<open>What the \<^verbatim>\<open>finally\<close> block owes\<close>

text \<open>
  The closes that are due in a state, in the order of the block: one for each of
  \<^verbatim>\<open>context\<close>, \<^verbatim>\<open>browser\<close>, \<^verbatim>\<open>pw\<close> that is not \<^verbatim>\<open>None\<close>.  Of a list of calls made one
  after the other from time \<open>t\<close>, \<open>attempted\<close> is the part that is reached (up to and
  including the first call that raises) and \<open>first_raise\<close> is what that call raises.
\<close>

definition closes_due :: "state \<Rightarrow> call list" where
  "closes_due s =
     (case context_var s of None \<Rightarrow> [] | Some c \<Rightarrow> [ContextClose])
     @ (case browser_var s of None \<Rightarrow> [] | Some b \<Rightarrow> [BrowserClose])
     @ (case pw_var s of None \<Rightarrow> [] | Some h \<Rightarrow> [PwStop])"

fun attempted :: "world \<Rightarrow> nat \<Rightarrow> call list \<Rightarrow> call list" where
  "attempted w t [] = []"
| "attempted w t (c # cs) =
     c # (case returns_none w t c of Inl e \<Rightarrow> [] | Inr u \<Rightarrow> attempted w (Suc t) cs)"

fun first_raise :: "world \<Rightarrow> nat \<Rightarrow> call list \<Rightarrow> lib_exc option" where
  "first_raise w t [] = None"
| "first_raise w t (c # cs) =
     (case returns_none w t c of Inl e \<Rightarrow> Some e | Inr u \<Rightarrow> first_raise w (Suc t) cs)"

subsection \<open>Errors and failures\<close>

text \<open>
  A run that ends with an \<^verbatim>\<open>AssertionError\<close> has failed; a run that ends with any other
  exception has met an error.
\<close>

fun is_error :: "exc \<Rightarrow> bool" where
  "is_error (AssertionError msg) = False"
| "is_error e = True"

text \<open>Every exception that leaves the statement satisfies \<open>E\<close>.\<close>

definition raises_only :: "(exc \<Rightarrow> bool) \<Rightarrow> 'a prog \<Rightarrow> bool" where
  "raises_only E m = (\<forall>w s e. fst (m w s) = Inl e \<longrightarrow> E e)"

subsection \<open>Assertion checkpoints\<close>

text \<open>A run of consecutive \<^verbatim>\<open>assert cond, msg\<close> statements, given by its conditions and messages.\<close>

definition checkpoint :: "(bool prog \<times> string option) list \<Rightarrow> unit prog" where
  "checkpoint ps = seq_all (map (\<lambda>(cond, msg). py_assert cond msg) ps)"

subsection \<open>Kinds of calls\<close>

text \<open>The calls made by the skeleton's first half, and two kinds of calls to filter a trace by.\<close>

fun prologue_call :: "call \<Rightarrow> bool" where
  "prologue_call PwStart = True"
| "prologue_call (Launch headless args) = True"
| "prologue_call NewContext = True"
| "prologue_call (SetDefaultTimeout t) = True"
| "prologue_call NewPage = True"
| "prologue_call (Goto p url wait_until t) = (wait_until = Some ''commit'' \<and> t = 10000)"
| "prologue_call (WaitForLoadState f st t) = (st = ''domcontentloaded'' \<and> t = 3000)"
| "prologue_call (PageFrames p) = True"
| "prologue_call c = False"

fun is_goto :: "call \<Rightarrow> bool" where
  "is_goto (Goto p url wait_until t) = True"
| "is_goto c = False"

fun is_load_wait :: "call \<Rightarrow> bool" where
  "is_load_wait (WaitForLoadState f st t) = True"
| "is_load_wait c = False"

subsection \<open>Steps that read the page afresh\<close>

text \<open>
  A call is quiet when it is neither a read of \<^verbatim>\<open>context.pages\<close> nor a click or a fill.
\<close>

fun quiet_call :: "call \<Rightarrow> bool" where
  "quiet_call ContextPages = False"
| "quiet_call (Click l t) = False"
| "quiet_call (Fill l v) = False"
| "quiet_call c = True"

definition tolerates_quiet :: "(world \<Rightarrow> state \<Rightarrow> state \<Rightarrow> bool) \<Rightarrow> bool" where
  "tolerates_quiet R = (preorder_on_states R
     \<and> (\<forall>c w s. step_call c \<and> quiet_call c \<longrightarrow> R w s (log c s))
     \<and> (\<forall>w s v. R w s (s\<lparr>frame_var := v\<rparr>)))"

text \<open>
  \<open>fresh_from w t cur cs\<close>: in the calls \<open>cs\<close>, made from time \<open>t\<close> on, every click and fill
  acts on a locator rooted at \<open>cur\<close>, the page that was last in \<^verbatim>\<open>context.pages\<close> at the latest
  read of it; \<open>cur\<close> is forgotten after each click and fill, so a click or fill needs a read
  of \<^verbatim>\<open>context.pages\<close> of its own.  \<open>cur_after\<close> is the value of \<open>cur\<close> after the calls.
\<close>

fun acts_on_fresh :: "target option \<Rightarrow> call \<Rightarrow> bool" where
  "acts_on_fresh cur (Click l limit) = (cur = Some (root l))"
| "acts_on_fresh cur (Fill l v) = (cur = Some (root l))"
| "acts_on_fresh cur c = True"

fun next_cur :: "world \<Rightarrow> nat \<Rightarrow> target option \<Rightarrow> call \<Rightarrow> target option" where
  "next_cur w t cur ContextPages =
     (case pages_at w t ContextPages of [] \<Rightarrow> None | p # ps \<Rightarrow> Some (OfPage (last (p # ps))))"
| "next_cur w t cur (Click l limit) = None"
| "next_cur w t cur (Fill l v) = None"
| "next_cur w t cur c = cur"

fun fresh_from :: "world \<Rightarrow> nat \<Rightarrow> target option \<Rightarrow> call list \<Rightarrow> bool" where
  "fresh_from w t cur [] = True"
| "fresh_from w t cur (c # cs) =
     (acts_on_fresh cur c \<and> fresh_from w (Suc t) (next_cur w t cur c) cs)"

fun cur_after :: "world \<Rightarrow> nat \<Rightarrow> target option \<Rightarrow> call list \<Rightarrow> target option" where
  "cur_after w t cur [] = cur"
| "cur_after w t cur (c # cs) = cur_after w (Suc t) (next_cur w t cur c) cs"

text \<open>The calls a statement adds are fresh whatever page was read before it.\<close>

definition fresh_rel :: "world \<Rightarrow> state \<Rightarrow> state \<Rightarrow> bool" where
  "fresh_rel w s s' =
     (\<exists>cs. trace s' = trace s @ cs \<and> (\<forall>cur. fresh_from w (length (trace s)) cur cs))"

section \<open>Environments used as examples\<close>

text \<open>
  A browser in which every call returns: one page, whose only frame is its main frame,
  already on the recruiter dashboard; every locator matches one visible element.
\<close>

definition calm :: world where
  "calm = \<lparr>returns_none = (\<lambda>t c. Inr ()), returns_obj = (\<lambda>t c. Inr 0),
     returns_int = (\<lambda>t c. Inr 1), returns_bool = (\<lambda>t c. Inr True),
     returns_str = (\<lambda>t c. Inr ''JobPortal Pro''), returns_text = (\<lambda>t c. Inr (Some ''90%'')),
     pages_at = (\<lambda>t c. [0]), frames_at = (\<lambda>t c. [0]),
     url_at = (\<lambda>t c. ''http://localhost:3000/recruiter/dashboard'')\<rparr>"

text \<open>The calls of the skeleton's first half in that browser.\<close>

definition calm_prologue_trace :: "call list" where
  "calm_prologue_trace =
    [PwStart, Launch True launch_args, NewContext, SetDefaultTimeout 5000, NewPage,
     Goto 0 ''http://localhost:3000'' (Some ''commit'') 10000,
     WaitForLoadState (OfPage 0) ''domcontentloaded'' 3000, PageFrames 0,
     WaitForLoadState (OfFrame 0) ''domcontentloaded'' 3000]"

text \<open>Three frames, the second of which never reaches its load state.\<close>

definition slow_frame :: world where
  "slow_frame = calm\<lparr>frames_at := (\<lambda>t c. [0, 1, 2]),
     returns_none := (\<lambda>t c. if c = WaitForLoadState (OfFrame 1) ''domcontentloaded'' 3000
        then Inl PlaywrightTimeoutError else Inr ())\<rparr>"

text \<open>A browser that dies: from its \<open>n\<close>-th call on, every call raises.\<close>

definition crashed_after :: "nat \<Rightarrow> world" where
  "crashed_after n = calm\<lparr>
     returns_none := (\<lambda>t c. if n \<le> t then Inl PlaywrightError else Inr ()),
     returns_obj := (\<lambda>t c. if n \<le> t then Inl PlaywrightError else Inr 0),
     returns_int := (\<lambda>t c. if n \<le> t then Inl PlaywrightError else Inr 1),
     returns_bool := (\<lambda>t c. if n \<le> t then Inl PlaywrightError else Inr True),
     returns_str := (\<lambda>t c. if n \<le> t then Inl PlaywrightError else Inr ''JobPortal Pro''),
     returns_text := (\<lambda>t c. if n \<le> t then Inl PlaywrightError else Inr (Some ''90%''))\<rparr>"

text \<open>No click finds its element in time.\<close>

definition click_times_out :: world where
  "click_times_out = calm\<lparr>returns_none :=
     (\<lambda>t c. case c of Click l limit \<Rightarrow> Inl PlaywrightTimeoutError | _ \<Rightarrow> Inr ())\<rparr>"

text \<open>The browser cannot be launched.\<close>

definition launch_fails :: world where
  "launch_fails = calm\<lparr>returns_obj :=
     (\<lambda>t c. case c of Launch headless args \<Rightarrow> Inl PlaywrightError | _ \<Rightarrow> Inr 0)\<rparr>"

text \<open>The browser cannot be launched, and stopping Playwright afterwards fails too.\<close>

definition launch_and_stop_fail :: world where
  "launch_and_stop_fail = launch_fails\<lparr>returns_none :=
     (\<lambda>t c. case c of PwStop \<Rightarrow> Inl PlaywrightTimeoutError | _ \<Rightarrow> Inr ())\<rparr>"

text \<open>The login did not go through: the page is still the login page and nothing of a
  dashboard is visible.\<close>

definition logged_out :: world where
  "logged_out = calm\<lparr>returns_bool := (\<lambda>t c. Inr False),
     url_at := (\<lambda>t c. ''http://localhost:3000/login'')\<rparr>"

text \<open>The dashboard URL is reached but none of its features is visible.\<close>

definition bare_dashboard :: world where
  "bare_dashboard = calm\<lparr>returns_bool := (\<lambda>t c. Inr False)\<rparr>"

text \<open>No fill finds its element in time.\<close>

definition fill_times_out :: world where
  "fill_times_out = calm\<lparr>returns_none :=
     (\<lambda>t c. case c of Fill l v \<Rightarrow> Inl PlaywrightTimeoutError | _ \<Rightarrow> Inr ())\<rparr>"

text \<open>The state in which the skeleton's first half leaves the interpreter in \<open>calm\<close>.\<close>

definition after_calm_prologue :: state where
  "after_calm_prologue = \<lparr>trace = calm_prologue_trace, pw_var = Some 0, browser_var = Some 0,
     context_var = Some 0, page_var = Some 0, frame_var = Some (OfFrame 0)\<rparr>"

text \<open>No page or frame ever reaches its load state.\<close>

definition never_loaded :: world where
  "never_loaded = calm\<lparr>returns_none :=
     (\<lambda>t c. case c of WaitForLoadState f st limit \<Rightarrow> Inl PlaywrightTimeoutError
        | _ \<Rightarrow> Inr ())\<rparr>"

text \<open>A second page opens at time \<open>n\<close> and is the last of \<^verbatim>\<open>context.pages\<close> from then on.\<close>

definition popup_after :: "nat \<Rightarrow> world" where
  "popup_after n = calm\<lparr>pages_at := (\<lambda>t c. if n \<le> t then [0, 1] else [0])\<rparr>"

section \<open>Sequencing\<close>

lemma seq_all_append:
  "seq_all (xs @ ys) w s =
     (case seq_all xs w s of (Inl e, s') \<Rightarrow> (Inl e, s') | (Inr u, s') \<Rightarrow> seq_all ys w s')"
  by (induction xs arbitrary: s) (auto split: prod.splits sum.splits)

lemma seq_all_raise:
  "seq_all xs w s = (Inr (), s1) \<Longrightarrow> m w s1 = (Inl e, s2) \<Longrightarrow>
   seq_all (xs @ m # ys) w s = (Inl e, s2)"
  by (simp add: seq_all_append)

section \<open>Relations that every statement keeps\<close>

lemma relatesD: "relates R m \<Longrightarrow> R w s (snd (m w s))"
  by (simp add: relates_def)

lemma relates_ret: "preorder_on_states R \<Longrightarrow> relates R (ret x)"
  by (simp add: relates_def ret_def preorder_on_states_def)

lemma relates_raise: "preorder_on_states R \<Longrightarrow> relates R (raise e)"
  by (simp add: relates_def raise_def preorder_on_states_def)

lemma relates_get_page: "preorder_on_states R \<Longrightarrow> relates R get_page"
  by (simp add: relates_def get_page_def preorder_on_states_def split: option.splits)

lemma relates_get_frame: "preorder_on_states R \<Longrightarrow> relates R get_frame"
  by (simp add: relates_def get_frame_def preorder_on_states_def split: option.splits)

lemma relates_assign: "(\<And>w s. R w s (upd s)) \<Longrightarrow> relates R (assign upd)"
  by (simp add: relates_def assign_def)

lemma relates_await: "(\<And>w s. R w s (log c s)) \<Longrightarrow> relates R (await answer c)"
  by (simp add: relates_def await_def split: sum.splits)

lemma relates_sync: "(\<And>w s. R w s (log c s)) \<Longrightarrow> relates R (sync answer c)"
  by (simp add: relates_def sync_def)

lemma relates_emit: "(\<And>w s. R w s (log c s)) \<Longrightarrow> relates R (emit c)"
  by (simp add: relates_def emit_def)

lemma relates_bind:
  assumes R: "preorder_on_states R" and m: "relates R m" and f: "\<And>x. relates R (f x)"
  shows "relates R (bind m f)"
  unfolding relates_def
proof (intro allI)
  fix w s
  obtain r s1 where ms: "m w s = (r, s1)" by (cases "m w s")
  with relatesD [OF m, of w s] have 1: "R w s s1" by simp
  show "R w s (snd (bind m f w s))"
  proof (cases r)
    case (Inl e)
    with ms 1 show ?thesis by (simp add: bind_def)
  next
    case (Inr x)
    from relatesD [OF f, of w s1 x] have "R w s1 (snd (f x w s1))" .
    with 1 R have "R w s (snd (f x w s1))"
      unfolding preorder_on_states_def by blast
    with Inr ms show ?thesis by (simp add: bind_def)
  qed
qed

lemma relates_try_except_Error: "relates R m \<Longrightarrow> relates R (try_except_Error m)"
proof -
  have "snd (try_except_Error m w s) = snd (m w s)" for w s
    by (simp add: try_except_Error_def split: prod.splits sum.splits exc.splits)
  then show "relates R m \<Longrightarrow> relates R (try_except_Error m)"
    by (simp add: relates_def)
qed

lemma seq_all_Cons_bind: "seq_all (m # ms) = bind m (\<lambda>u. seq_all ms)"
  by (intro ext) (simp add: bind_def)

lemma for_each_Cons_bind: "for_each (x # xs) body = bind (body x) (\<lambda>u. for_each xs body)"
  by (intro ext) (simp add: bind_def)

lemma relates_seq_all:
  assumes "preorder_on_states R" and "\<And>m. m \<in> set ms \<Longrightarrow> relates R m"
  shows "relates R (seq_all ms)"
  using assms(2)
proof (induction ms)
  case Nil
  from assms(1) show ?case by (simp add: relates_def preorder_on_states_def)
next
  case (Cons m ms)
  then show ?case by (simp add: seq_all_Cons_bind relates_bind [OF assms(1)])
qed

lemma relates_for_each:
  assumes "preorder_on_states R" and "\<And>x. relates R (body x)"
  shows "relates R (for_each xs body)"
proof (induction xs)
  case Nil
  from assms(1) show ?case by (simp add: relates_def preorder_on_states_def)
next
  case (Cons x xs)
  then show ?case by (simp add: for_each_Cons_bind relates_bind [OF assms(1)] assms(2))
qed

lemma relates_py_assert:
  "preorder_on_states R \<Longrightarrow> relates R c \<Longrightarrow> relates R (py_assert c msg)"
  by (simp add: py_assert_def relates_bind relates_ret relates_raise)

lemma tolerates_preorder: "tolerates R \<Longrightarrow> preorder_on_states R"
  by (simp add: tolerates_def)

lemma t_ret: "tolerates R \<Longrightarrow> relates R (ret x)"
  by (simp add: relates_ret tolerates_preorder)

lemma t_raise: "tolerates R \<Longrightarrow> relates R (raise e)"
  by (simp add: relates_raise tolerates_preorder)

lemma t_get_page: "tolerates R \<Longrightarrow> relates R get_page"
  by (simp add: relates_get_page tolerates_preorder)

lemma t_get_frame: "tolerates R \<Longrightarrow> relates R get_frame"
  by (simp add: relates_get_frame tolerates_preorder)

lemma t_await: "tolerates R \<Longrightarrow> step_call c \<Longrightarrow> relates R (await answer c)"
  by (rule relates_await) (simp add: tolerates_def)

lemma t_sync: "tolerates R \<Longrightarrow> step_call c \<Longrightarrow> relates R (sync answer c)"
  by (rule relates_sync) (simp add: tolerates_def)

lemma t_emit: "tolerates R \<Longrightarrow> step_call c \<Longrightarrow> relates R (emit c)"
  by (rule relates_emit) (simp add: tolerates_def)

lemma t_set_frame: "tolerates R \<Longrightarrow> relates R (assign (\<lambda>s. s\<lparr>frame_var := v\<rparr>))"
  by (rule relates_assign) (simp add: tolerates_def)

lemma t_bind:
  "tolerates R \<Longrightarrow> relates R m \<Longrightarrow> (\<And>x. relates R (f x)) \<Longrightarrow> relates R (bind m f)"
  by (simp add: relates_bind tolerates_preorder)

lemma t_seq_all:
  "tolerates R \<Longrightarrow> (\<And>m. m \<in> set ms \<Longrightarrow> relates R m) \<Longrightarrow> relates R (seq_all ms)"
  by (simp add: relates_seq_all tolerates_preorder)

lemma t_py_assert: "tolerates R \<Longrightarrow> relates R c \<Longrightarrow> relates R (py_assert c msg)"
  by (simp add: relates_py_assert tolerates_preorder)

lemmas t_basic = t_ret t_raise t_get_page t_get_frame t_await t_sync t_emit t_set_frame t_bind
  t_py_assert

lemma t_last_page: "tolerates R \<Longrightarrow> relates R last_page"
  by (simp add: last_page_def t_basic split: list.splits)

lemma t_click_step: "tolerates R \<Longrightarrow> relates R (click_step path)"
  by (simp add: click_step_def Let_def t_basic t_last_page)

lemma t_fill_step: "tolerates R \<Longrightarrow> relates R (fill_step path v)"
  by (simp add: fill_step_def Let_def t_basic t_last_page)

lemma t_goto_step: "tolerates R \<Longrightarrow> relates R (goto_step url)"
  by (simp add: goto_step_def t_basic)

lemma t_scroll_step: "tolerates R \<Longrightarrow> relates R scroll_step"
  by (simp add: scroll_step_def t_basic)

lemma t_asyncio_sleep: "tolerates R \<Longrightarrow> relates R (asyncio_sleep n)"
  by (simp add: asyncio_sleep_def t_basic)

lemma t_count_positive: "tolerates R \<Longrightarrow> relates R (count_positive l)"
  by (simp add: count_positive_def t_basic)

lemma t_frame_count_positive: "tolerates R \<Longrightarrow> relates R (frame_count_positive sel)"
  by (simp add: frame_count_positive_def t_basic t_count_positive)

lemma t_frame_visible: "tolerates R \<Longrightarrow> relates R (frame_visible sel msg)"
  by (simp add: frame_visible_def t_basic)

lemma t_page_count: "tolerates R \<Longrightarrow> relates R (page_count sel)"
  by (simp add: page_count_def t_basic)

lemma t_page_text_content: "tolerates R \<Longrightarrow> relates R (page_text_content sel)"
  by (simp add: page_text_content_def t_basic)

lemma t_on_recruiter_dashboard: "tolerates R \<Longrightarrow> relates R on_recruiter_dashboard"
  by (simp add: on_recruiter_dashboard_def t_basic)

lemma t_extract: "tolerates R \<Longrightarrow> relates R (extract_coverage_percentage text)"
  by (simp add: extract_coverage_percentage_def t_basic split: option.splits)

lemmas t_steps = t_basic t_last_page t_click_step t_fill_step t_goto_step t_scroll_step
  t_asyncio_sleep t_count_positive t_frame_count_positive t_frame_visible t_page_count
  t_page_text_content t_on_recruiter_dashboard t_extract

lemma t_seq_nil: "tolerates R \<Longrightarrow> relates R (seq_all [])"
  by (rule t_seq_all) simp_all

lemma t_seq_cons:
  "tolerates R \<Longrightarrow> relates R m \<Longrightarrow> relates R (seq_all ms) \<Longrightarrow> relates R (seq_all (m # ms))"
  by (simp add: seq_all_Cons_bind t_bind)

lemma t_tc013_role_checks: "tolerates R \<Longrightarrow> relates R tc013_role_checks"
  by (simp add: tc013_role_checks_def Let_def t_steps t_seq_nil t_seq_cons)

lemma t_tc016_checks: "tolerates R \<Longrightarrow> relates R tc016_checks"
  by (simp add: tc016_checks_def Let_def t_steps t_seq_nil t_seq_cons)

lemma t_all_scripts:
  assumes "tolerates R" and "steps \<in> set all_scripts" and "m \<in> set steps"
  shows "relates R m"
proof -
  have "m \<in> set tc001_steps \<Longrightarrow> relates R m"
    using assms(1) by (auto simp: tc001_steps_def t_steps)
  moreover have "m \<in> set tc002_steps \<Longrightarrow> relates R m"
    using assms(1) by (auto simp: tc002_steps_def tc002_actions_def tc002_checks_def t_steps)
  moreover have "m \<in> set tc007_steps \<Longrightarrow> relates R m"
    using assms(1) by (auto simp: tc007_steps_def tc007_actions_def tc007_checks_def t_steps)
  moreover have "m \<in> set tc011_steps \<Longrightarrow> relates R m"
    using assms(1) by (auto simp: tc011_steps_def t_steps)
  moreover have "m \<in> set tc013_build_steps \<Longrightarrow> relates R m"
    using assms(1) by (auto simp: tc013_build_steps_def tc013_build_checks_def t_steps)
  moreover have "m \<in> set tc013_role_steps \<Longrightarrow> relates R m"
    using assms(1)
    by (auto simp: tc013_role_steps_def tc013_role_actions_def t_steps t_tc013_role_checks)
  moreover have "m \<in> set tc015_steps \<Longrightarrow> relates R m"
    using assms(1) by (auto simp: tc015_steps_def t_steps)
  moreover have "m \<in> set tc016_steps \<Longrightarrow> relates R m"
    using assms(1) by (auto simp: tc016_steps_def t_steps t_tc016_checks)
  ultimately show ?thesis
    using assms(2,3) by (auto simp: all_scripts_def)
qed

lemma preorder_emits: "preorder_on_states (emits A)"
  unfolding preorder_on_states_def emits_def
proof (intro conjI allI impI)
  fix w :: world and s :: state
  show "\<exists>cs. trace s = trace s @ cs \<and> set cs \<subseteq> A" by simp
next
  fix w :: world and s t u :: state
  assume "\<exists>cs. trace t = trace s @ cs \<and> set cs \<subseteq> A"
    and "\<exists>cs. trace u = trace t @ cs \<and> set cs \<subseteq> A"
  then obtain cs ds where "trace t = trace s @ cs" "set cs \<subseteq> A"
    "trace u = trace t @ ds" "set ds \<subseteq> A" by blast
  then have "trace u = trace s @ (cs @ ds) \<and> set (cs @ ds) \<subseteq> A" by simp
  then show "\<exists>cs. trace u = trace s @ cs \<and> set cs \<subseteq> A" by blast
qed

lemma tolerates_emits: "Collect step_call \<subseteq> A \<Longrightarrow> tolerates (emits A)"
  unfolding tolerates_def
  by (auto simp: preorder_emits) (auto simp: emits_def log_def)

lemma tolerates_keeps_session: "tolerates keeps_session"
  unfolding tolerates_def preorder_on_states_def
  by (simp add: keeps_session_def log_def)

section \<open>The \<^verbatim>\<open>finally\<close> block\<close>

lemma finally_block_eq:
  "finally_block w s =
    ((case first_raise w (length (trace s)) (closes_due s) of
        None \<Rightarrow> Inr () | Some e \<Rightarrow> Inl (Playwright e)),
     s\<lparr>trace := trace s @ attempted w (length (trace s)) (closes_due s)\<rparr>)"
  by (simp add: finally_block_def close_context_def close_browser_def stop_playwright_def
      closes_due_def await_def log_def split: option.splits sum.splits)

lemma attempted_all: "first_raise w t cs = None \<Longrightarrow> attempted w t cs = cs"
  by (induction cs arbitrary: t) (auto split: sum.splits)

lemma attempted_prefix: "prefix (attempted w t cs) cs"
  by (induction cs arbitrary: t) (auto split: sum.splits)

lemma run_test_eq:
  assumes "seq_all (prologue @ steps) w s = (r, s1)"
  shows "run_test steps w s =
    ((case first_raise w (length (trace s1)) (closes_due s1) of
        None \<Rightarrow> r | Some e \<Rightarrow> Inl (Playwright e)),
     s1\<lparr>trace := trace s1 @ attempted w (length (trace s1)) (closes_due s1)\<rparr>)"
  using assms by (simp add: run_test_def try_finally_def finally_block_eq split: option.splits)

lemmas run_defs = asyncio_run_def run_test_def try_finally_def finally_block_def
  close_context_def close_browser_def stop_playwright_def prologue_def start_playwright_def
  launch_browser_def new_context_def set_default_timeout_def new_page_def goto_home_def
  settle_page_def settle_frames_def settle_frame_def click_step_def fill_step_def
  goto_step_def last_page_def scroll_step_def asyncio_sleep_def py_assert_def get_page_def
  get_frame_def bind_def ret_def raise_def await_def sync_def emit_def assign_def log_def
  try_except_Error_def init_state_def launch_args_def Let_def

lemmas world_defs = calm_def click_times_out_def crashed_after_def slow_frame_def
  calm_prologue_trace_def launch_fails_def launch_and_stop_fail_def logged_out_def
  bare_dashboard_def fill_times_out_def after_calm_prologue_def never_loaded_def
  popup_after_def

lemma step_call_not_teardown: "step_call c \<Longrightarrow> \<not> teardown_call c"
  by (cases c) simp_all

lemma emits_prologue:
  "m \<in> set prologue \<Longrightarrow> relates (emits {c. \<not> teardown_call c}) m"
  by (auto simp: prologue_def start_playwright_def launch_browser_def new_context_def
      set_default_timeout_def new_page_def goto_home_def settle_page_def settle_frames_def
      settle_frame_def
      intro!: relates_bind relates_await relates_assign relates_emit relates_get_page
        relates_get_frame relates_try_except_Error relates_sync relates_for_each preorder_emits)
     (auto simp: emits_def log_def)

lemma body_emits_no_teardown:
  assumes "steps \<in> set all_scripts"
  shows "relates (emits {c. \<not> teardown_call c}) (seq_all (prologue @ steps))"
proof (rule relates_seq_all [OF preorder_emits])
  fix m assume "m \<in> set (prologue @ steps)"
  then consider "m \<in> set prologue" | "m \<in> set steps" by auto
  then show "relates (emits {c. \<not> teardown_call c}) m"
  proof cases
    case 1 then show ?thesis by (rule emits_prologue)
  next
    case 2
    have "tolerates (emits {c. \<not> teardown_call c})"
      by (rule tolerates_emits) (auto dest: step_call_not_teardown)
    from t_all_scripts [OF this assms 2] show ?thesis .
  qed
qed

section \<open>The frame-settle loop\<close>

lemma settle_frame_eq:
  "settle_frame f w s =
     (Inr (), s\<lparr>frame_var := Some (OfFrame f),
        trace := trace s @ [WaitForLoadState (OfFrame f) ''domcontentloaded'' 3000]\<rparr>)"
  by (simp add: settle_frame_def bind_def assign_def try_except_Error_def get_frame_def
      await_def log_def split: sum.splits)

lemma for_each_settle_frame:
  "for_each fs settle_frame w s =
     (Inr (), s\<lparr>frame_var := (if fs = [] then frame_var s else Some (OfFrame (last fs))),
        trace := trace s @ map (\<lambda>f. WaitForLoadState (OfFrame f) ''domcontentloaded'' 3000) fs\<rparr>)"
  by (induction fs arbitrary: s) (simp_all add: settle_frame_eq)

text \<open>
  C2.  A frame-settle pass (lines 41 to 45) reads \<^verbatim>\<open>page.frames\<close> once and then waits on
  each frame of that list, in order, for \<^verbatim>\<open>domcontentloaded\<close> with a timeout of 3000 ms.
  Whatever the waits answer (return, \<^verbatim>\<open>TimeoutError\<close>, any other Playwright \<^verbatim>\<open>Error\<close>), every
  frame of the list is waited on exactly once and the pass itself returns normally: a
  timeout neither drops a frame, nor ends the loop, nor leaves the statement.
\<close>

theorem settle_frames_waits_on_every_frame:
  assumes "page_var s = Some p"
  shows "settle_frames w s =
     (Inr (), s\<lparr>frame_var :=
          (if frames_at w (length (trace s)) (PageFrames p) = [] then frame_var s
           else Some (OfFrame (last (frames_at w (length (trace s)) (PageFrames p))))),
        trace := trace s @ PageFrames p #
          map (\<lambda>f. WaitForLoadState (OfFrame f) ''domcontentloaded'' 3000)
            (frames_at w (length (trace s)) (PageFrames p))\<rparr>)"
  using assms
  by (simp add: settle_frames_def bind_def get_page_def sync_def log_def for_each_settle_frame)

theorem settle_frames_waits_on_every_frame_witness:
  "page_var (init_state\<lparr>page_var := Some 0\<rparr>) = Some 0
   \<and> returns_none slow_frame 2 (WaitForLoadState (OfFrame 1) ''domcontentloaded'' 3000)
       = Inl PlaywrightTimeoutError
   \<and> fst (settle_frames slow_frame (init_state\<lparr>page_var := Some 0\<rparr>)) = Inr ()
   \<and> trace (snd (settle_frames slow_frame (init_state\<lparr>page_var := Some 0\<rparr>))) =
       [PageFrames 0,
        WaitForLoadState (OfFrame 0) ''domcontentloaded'' 3000,
        WaitForLoadState (OfFrame 1) ''domcontentloaded'' 3000,
        WaitForLoadState (OfFrame 2) ''domcontentloaded'' 3000]"
  using settle_frames_waits_on_every_frame [of "init_state\<lparr>page_var := Some 0\<rparr>" 0 slow_frame]
  by (simp add: init_state_def slow_frame_def calm_def)

section \<open>Which exceptions a statement can raise\<close>

lemma raises_onlyD: "raises_only E m \<Longrightarrow> fst (m w s) = Inl e \<Longrightarrow> E e"
  by (simp add: raises_only_def)

lemma r_ret: "raises_only E (ret x)"
  by (simp add: raises_only_def ret_def)

lemma r_raise: "E e \<Longrightarrow> raises_only E (raise e)"
  by (simp add: raises_only_def raise_def)

lemma r_assign: "raises_only E (assign upd)"
  by (simp add: raises_only_def assign_def)

lemma r_get_page: "E (UnboundLocalError ''page'') \<Longrightarrow> raises_only E get_page"
  by (auto simp: raises_only_def get_page_def split: option.splits)

lemma r_get_frame: "E (UnboundLocalError ''frame'') \<Longrightarrow> raises_only E get_frame"
  by (auto simp: raises_only_def get_frame_def split: option.splits)

lemma r_await: "(\<And>l. E (Playwright l)) \<Longrightarrow> raises_only E (await answer c)"
  by (auto simp: raises_only_def await_def split: sum.splits)

lemma r_sync: "raises_only E (sync answer c)"
  by (simp add: raises_only_def sync_def)

lemma r_emit: "raises_only E (emit c)"
  by (simp add: raises_only_def emit_def)

lemma r_bind:
  assumes "raises_only E m" and "\<And>x. raises_only E (f x)"
  shows "raises_only E (bind m f)"
  unfolding raises_only_def
proof (intro allI impI)
  fix w s e
  assume *: "fst (bind m f w s) = Inl e"
  obtain r s1 where ms: "m w s = (r, s1)" by (cases "m w s")
  show "E e"
  proof (cases r)
    case (Inl e')
    with ms * have "fst (m w s) = Inl e" by (simp add: bind_def)
    with assms(1) show ?thesis by (rule raises_onlyD)
  next
    case (Inr x)
    with ms * have "fst (f x w s1) = Inl e" by (simp add: bind_def)
    with assms(2) show ?thesis by (rule raises_onlyD)
  qed
qed

lemma r_seq_nil: "raises_only E (seq_all [])"
  by (simp add: raises_only_def)

lemma r_seq_cons:
  "raises_only E m \<Longrightarrow> raises_only E (seq_all ms) \<Longrightarrow> raises_only E (seq_all (m # ms))"
  by (simp add: seq_all_Cons_bind r_bind)

lemma r_seq_all: "(\<And>m. m \<in> set ms \<Longrightarrow> raises_only E m) \<Longrightarrow> raises_only E (seq_all ms)"
  by (induction ms) (simp_all add: r_seq_nil r_seq_cons)

lemma r_for_each: "(\<And>x. raises_only E (body x)) \<Longrightarrow> raises_only E (for_each xs body)"
  by (induction xs) (simp_all add: for_each_Cons_bind r_bind, simp add: raises_only_def)

lemma r_try_except_Error: "raises_only E m \<Longrightarrow> raises_only E (try_except_Error m)"
  unfolding raises_only_def try_except_Error_def
  by (auto split: prod.splits sum.splits exc.splits) (metis fst_conv)+

lemma r_try_finally:
  "raises_only E body \<Longrightarrow> raises_only E fin \<Longrightarrow> raises_only E (try_finally body fin)"
  unfolding raises_only_def try_finally_def
  by (auto split: prod.splits sum.splits) (metis fst_conv)+

lemmas r_basic = r_ret r_raise r_assign r_get_page r_get_frame r_await r_sync r_emit r_bind
  r_seq_nil r_seq_cons r_try_except_Error

lemma r_prologue: "m \<in> set prologue \<Longrightarrow> raises_only is_error m"
  by (auto simp: prologue_def start_playwright_def launch_browser_def new_context_def
      set_default_timeout_def new_page_def goto_home_def settle_page_def settle_frames_def
      settle_frame_def r_basic r_for_each)

lemma r_finally_block: "raises_only is_error finally_block"
proof -
  have "raises_only is_error close_context" "raises_only is_error close_browser"
    "raises_only is_error stop_playwright"
    by (auto simp: raises_only_def close_context_def close_browser_def stop_playwright_def
        await_def split: option.splits sum.splits)
  then show ?thesis by (simp add: finally_block_def r_basic)
qed

lemma r_last_page: "raises_only is_error last_page"
  by (simp add: last_page_def r_basic split: list.splits)

lemma r_click_step: "raises_only is_error (click_step path)"
  by (simp add: click_step_def Let_def r_basic r_last_page)

lemma r_fill_step: "raises_only is_error (fill_step path v)"
  by (simp add: fill_step_def Let_def r_basic r_last_page)

lemma r_goto_step: "raises_only is_error (goto_step url)"
  by (simp add: goto_step_def r_basic)

lemma r_scroll_step: "raises_only is_error scroll_step"
  by (simp add: scroll_step_def r_basic)

lemma scroll_step_eq:
  "page_var s = Some p \<Longrightarrow> scroll_step w s = (Inl (NameError ''window''), s)"
  by (simp add: scroll_step_def bind_def get_page_def raise_def)

lemma scroll_step_never_returns: "\<exists>e. scroll_step w s = (Inl e, s)"
  by (simp add: scroll_step_def bind_def get_page_def raise_def split: option.splits)

lemma seq_all_dead_code:
  assumes "\<And>w s. \<exists>e s'. m w s = (Inl e, s')"
  shows "seq_all (xs @ m # ys) = seq_all (xs @ [m])"
proof (intro ext)
  fix w s
  obtain r s1 where xs: "seq_all xs w s = (r, s1)" by (cases "seq_all xs w s")
  from assms [of w s1] obtain e s2 where "m w s1 = (Inl e, s2)" by blast
  with xs show "seq_all (xs @ m # ys) w s = seq_all (xs @ [m]) w s"
    by (cases r) (simp_all add: seq_all_append)
qed

lemma seq_all_never_returns:
  assumes "\<And>w s. \<exists>e s'. m w s = (Inl e, s')"
  shows "\<exists>e. fst (seq_all (xs @ [m]) w s) = Inl e"
proof -
  obtain r s1 where xs: "seq_all xs w s = (r, s1)" by (cases "seq_all xs w s")
  from assms [of w s1] obtain e s2 where "m w s1 = (Inl e, s2)" by blast
  with xs show ?thesis by (cases r) (simp_all add: seq_all_append)
qed

lemma try_finally_never_returns:
  "\<exists>e. fst (body w s) = Inl e \<Longrightarrow> \<exists>e. fst (try_finally body fin w s) = Inl e"
  by (auto simp: try_finally_def split: prod.splits sum.splits)

lemma settle_frames_returns:
  "settle_frames w s = (Inr (), s1) \<Longrightarrow> page_var s1 \<noteq> None"
  by (auto simp: settle_frames_def bind_def get_page_def sync_def log_def for_each_settle_frame
      split: option.splits)

lemma prologue_binds_page:
  assumes "seq_all prologue w s = (Inr (), s1)"
  shows "page_var s1 \<noteq> None"
proof -
  have "prologue = butlast prologue @ [settle_frames]"
    by (simp add: prologue_def)
  with assms have "seq_all (butlast prologue @ [settle_frames]) w s = (Inr (), s1)"
    by simp
  then obtain s0 where "settle_frames w s0 = (Inr (), s1)"
    by (auto simp: seq_all_append split: prod.splits sum.splits)
  then show ?thesis by (rule settle_frames_returns)
qed

lemma steps_keep_session:
  assumes "steps \<in> set all_scripts" and "set pre \<subseteq> set steps"
  shows "keeps_session w s (snd (seq_all pre w s))"
proof -
  have "relates keeps_session (seq_all pre)"
  proof (rule t_seq_all [OF tolerates_keeps_session])
    fix m assume "m \<in> set pre"
    with assms(2) have "m \<in> set steps" by blast
    from t_all_scripts [OF tolerates_keeps_session assms(1) this]
    show "relates keeps_session m" .
  qed
  then show ?thesis by (rule relatesD)
qed

lemma page_bound_after:
  assumes "steps \<in> set all_scripts" and "set pre \<subseteq> set steps"
    and "seq_all (prologue @ pre) w s = (Inr (), s1)"
  shows "page_var s1 \<noteq> None"
proof -
  from assms(3) obtain s0 where 0: "seq_all prologue w s = (Inr (), s0)"
    and 1: "seq_all pre w s0 = (Inr (), s1)"
    by (auto simp: seq_all_append split: prod.splits sum.splits)
  from steps_keep_session [OF assms(1,2), of w s0] 1 have "page_var s1 = page_var s0"
    by (simp add: keeps_session_def)
  with prologue_binds_page [OF 0] show ?thesis by simp
qed

section \<open>Teardown\<close>

text \<open>
  C1, as amended.  However the \<^verbatim>\<open>try\<close> block ends (normal completion, a failed assertion, an
  exception out of setup, navigation, a step or an assertion), the \<^verbatim>\<open>finally\<close> block runs
  once, after the last call of the block, and goes through the closes that are due
  (\<^verbatim>\<open>context.close()\<close>, \<^verbatim>\<open>browser.close()\<close>, \<^verbatim>\<open>pw.stop()\<close>, each only if its variable is not
  \<^verbatim>\<open>None\<close>) in that order.  A close is reached only if every close before it returned:
  the calls made are the due closes up to and including the first that raises, and what
  that one raises replaces the outcome of the run.  When none raises, all due closes are
  made and the outcome is that of the \<^verbatim>\<open>try\<close> block.  In the eight scripts the \<^verbatim>\<open>try\<close> block
  itself makes no close call, so each close is made at most once in a run.
\<close>

theorem finally_closes_in_order:
  assumes "seq_all (prologue @ steps) w init_state = (r, s1)"
  shows "asyncio_run steps w =
      ((case first_raise w (length (trace s1)) (closes_due s1) of
          None \<Rightarrow> r | Some e \<Rightarrow> Inl (Playwright e)),
       s1\<lparr>trace := trace s1 @ attempted w (length (trace s1)) (closes_due s1)\<rparr>)
    \<and> prefix (attempted w (length (trace s1)) (closes_due s1)) (closes_due s1)
    \<and> (first_raise w (length (trace s1)) (closes_due s1) = None \<longrightarrow>
         attempted w (length (trace s1)) (closes_due s1) = closes_due s1)
    \<and> (steps \<in> set all_scripts \<longrightarrow> (\<forall>c \<in> set (trace s1). \<not> teardown_call c))"
proof -
  have "steps \<in> set all_scripts \<Longrightarrow> \<forall>c \<in> set (trace s1). \<not> teardown_call c"
  proof -
    assume "steps \<in> set all_scripts"
    from relatesD [OF body_emits_no_teardown [OF this], of w init_state] assms
    show ?thesis by (auto simp: emits_def init_state_def)
  qed
  with assms show ?thesis
    by (simp add: asyncio_run_def run_test_eq attempted_all attempted_prefix)
qed


theorem finally_closes_in_order_witness:
  "seq_all (prologue @ tc001_steps) click_times_out init_state =
     (Inl (Playwright PlaywrightTimeoutError),
      \<lparr>trace = calm_prologue_trace @ [ContextPages, WaitForTimeout 0 3000,
         Click (Nth (Locator (OfPage 0) ''xpath=html/body/div/header/div/div[2]/div/a[2]'') 0)
           (Some 5000)],
       pw_var = Some 0, browser_var = Some 0, context_var = Some 0, page_var = Some 0,
       frame_var = Some (OfPage 0)\<rparr>)
   \<and> asyncio_run tc001_steps click_times_out =
     (Inl (Playwright PlaywrightTimeoutError),
      \<lparr>trace = calm_prologue_trace @ [ContextPages, WaitForTimeout 0 3000,
         Click (Nth (Locator (OfPage 0) ''xpath=html/body/div/header/div/div[2]/div/a[2]'') 0)
           (Some 5000),
         ContextClose, BrowserClose, PwStop],
       pw_var = Some 0, browser_var = Some 0, context_var = Some 0, page_var = Some 0,
       frame_var = Some (OfPage 0)\<rparr>)"
proof -
  have body: "seq_all (prologue @ tc001_steps) click_times_out init_state =
     (Inl (Playwright PlaywrightTimeoutError),
      \<lparr>trace = calm_prologue_trace @ [ContextPages, WaitForTimeout 0 3000,
         Click (Nth (Locator (OfPage 0) ''xpath=html/body/div/header/div/div[2]/div/a[2]'') 0)
           (Some 5000)],
       pw_var = Some 0, browser_var = Some 0, context_var = Some 0, page_var = Some 0,
       frame_var = Some (OfPage 0)\<rparr>)"
    by (simp add: run_defs world_defs tc001_steps_def)
  from finally_closes_in_order [OF body] body show ?thesis
    by (simp add: closes_due_def world_defs)
qed

text \<open>
  The claim as stated fails when a close raises.  The browser dies during the first click
  of TC001: the click raises, \<^verbatim>\<open>context.close()\<close> raises as well, and the browser and the
  Playwright handle, both acquired, are never closed.
\<close>

theorem finally_skips_closes_counterexample:
  "browser_var (snd (asyncio_run tc001_steps (crashed_after 11))) = Some 0
   \<and> BrowserClose \<notin> set (trace (snd (asyncio_run tc001_steps (crashed_after 11))))
   \<and> pw_var (snd (asyncio_run tc001_steps (crashed_after 11))) = Some 0
   \<and> PwStop \<notin> set (trace (snd (asyncio_run tc001_steps (crashed_after 11))))"
  by (simp add: run_defs world_defs tc001_steps_def)

section \<open>Failed session acquisition\<close>

lemma seq_all_prologue_start_fails:
  "returns_obj w 0 PwStart = Inl e \<Longrightarrow>
   seq_all (prologue @ steps) w init_state = (Inl (Playwright e), init_state\<lparr>trace := [PwStart]\<rparr>)"
  by (simp add: prologue_def start_playwright_def bind_def await_def log_def init_state_def)

lemma seq_all_prologue_launch_fails:
  "returns_obj w 0 PwStart = Inr h \<Longrightarrow> returns_obj w 1 (Launch True launch_args) = Inl e \<Longrightarrow>
   seq_all (prologue @ steps) w init_state =
     (Inl (Playwright e),
      init_state\<lparr>pw_var := Some h, trace := [PwStart, Launch True launch_args]\<rparr>)"
  by (simp add: prologue_def start_playwright_def launch_browser_def bind_def await_def
      assign_def log_def init_state_def)

text \<open>
  C7, as amended.  When the session cannot be acquired, no statement after the failing call
  is run: no page is opened, no navigation and no step is attempted, and the run ends with
  the Playwright error of the failed call or of the teardown, never normally and never with
  an assertion failure.  The \<^verbatim>\<open>finally\<close> block still runs.  If
  \<^verbatim>\<open>async_playwright().start()\<close> is what failed, nothing was acquired and the block makes no
  call at all.  If the launch failed, \<^verbatim>\<open>context\<close> and \<^verbatim>\<open>browser\<close> are still \<^verbatim>\<open>None\<close> and are
  skipped, and \<^verbatim>\<open>pw.stop()\<close> is called because the handle was acquired: the block raises
  only if that call raises, and otherwise the launch error leaves the run.
\<close>

theorem failed_acquisition_skips_steps:
  "(returns_obj w 0 PwStart = Inl e \<longrightarrow>
      asyncio_run steps w = (Inl (Playwright e), init_state\<lparr>trace := [PwStart]\<rparr>))
   \<and> (returns_obj w 0 PwStart = Inr h \<and> returns_obj w 1 (Launch True launch_args) = Inl e \<longrightarrow>
      asyncio_run steps w =
        ((case returns_none w 2 PwStop of
            Inl e' \<Rightarrow> Inl (Playwright e') | Inr u \<Rightarrow> Inl (Playwright e)),
         init_state\<lparr>pw_var := Some h, trace := [PwStart, Launch True launch_args, PwStop]\<rparr>))"
proof (intro conjI impI)
  assume "returns_obj w 0 PwStart = Inl e"
  from run_test_eq [OF seq_all_prologue_start_fails [OF this]]
  show "asyncio_run steps w = (Inl (Playwright e), init_state\<lparr>trace := [PwStart]\<rparr>)"
    by (simp add: asyncio_run_def closes_due_def init_state_def)
next
  assume "returns_obj w 0 PwStart = Inr h \<and> returns_obj w 1 (Launch True launch_args) = Inl e"
  then have "seq_all (prologue @ steps) w init_state =
     (Inl (Playwright e),
      init_state\<lparr>pw_var := Some h, trace := [PwStart, Launch True launch_args]\<rparr>)"
    by (simp add: seq_all_prologue_launch_fails)
  from run_test_eq [OF this]
  show "asyncio_run steps w =
        ((case returns_none w 2 PwStop of
            Inl e' \<Rightarrow> Inl (Playwright e') | Inr u \<Rightarrow> Inl (Playwright e)),
         init_state\<lparr>pw_var := Some h, trace := [PwStart, Launch True launch_args, PwStop]\<rparr>)"
    by (simp add: asyncio_run_def closes_due_def init_state_def numeral_2_eq_2 split: sum.splits)
qed

theorem failed_acquisition_skips_steps_witness:
  "returns_obj launch_fails 0 PwStart = Inr 0
   \<and> returns_obj launch_fails 1 (Launch True launch_args) = Inl PlaywrightError
   \<and> asyncio_run tc002_steps launch_fails =
       (Inl (Playwright PlaywrightError),
        init_state\<lparr>pw_var := Some 0, trace := [PwStart, Launch True launch_args, PwStop]\<rparr>)"
  using failed_acquisition_skips_steps [of launch_fails PlaywrightError tc002_steps 0]
  by (simp add: launch_fails_def calm_def)

text \<open>
  The claim as stated fails when \<^verbatim>\<open>pw.stop()\<close> raises: the launch fails with one error,
  the \<^verbatim>\<open>finally\<close> block raises another, and that one leaves the run.
\<close>

theorem release_raises_counterexample:
  "fst (seq_all (prologue @ tc002_steps) launch_and_stop_fail init_state)
     = Inl (Playwright PlaywrightError)
   \<and> fst (finally_block launch_and_stop_fail
        (snd (seq_all (prologue @ tc002_steps) launch_and_stop_fail init_state)))
     = Inl (Playwright PlaywrightTimeoutError)
   \<and> fst (asyncio_run tc002_steps launch_and_stop_fail) = Inl (Playwright PlaywrightTimeoutError)"
  by (simp add: run_defs world_defs)

section \<open>Assertions\<close>

lemma py_assert_eq:
  "py_assert cond msg w s =
     (case cond w s of (Inl e, s2) \<Rightarrow> (Inl e, s2)
      | (Inr b, s2) \<Rightarrow> if b then (Inr (), s2) else (Inl (AssertionError msg), s2))"
  by (simp add: py_assert_def bind_def ret_def raise_def split: prod.splits sum.splits)

text \<open>
  C3, as amended.  The predicates of a checkpoint are plain \<^verbatim>\<open>assert\<close> statements, run one
  after the other.  They are evaluated in order, each at most once, up to and including the
  first that does not hold: if the predicates before it held and it evaluates to false, the
  checkpoint ends there with an \<^verbatim>\<open>AssertionError\<close> carrying that predicate's message (or with
  the exception the predicate raised), in the state that predicate left, whatever the
  remaining predicates are: they are not evaluated.  Only when it holds does evaluation go
  on with the rest.  A run thus reports the first failing predicate, not the failing subset.
\<close>

theorem assert_block_stops_at_first_failure:
  assumes "checkpoint ps w s = (Inr (), s1)" and "cond w s1 = (r, s2)"
  shows "checkpoint (ps @ (cond, msg) # qs) w s =
     (case r of Inl e \<Rightarrow> (Inl e, s2)
      | Inr b \<Rightarrow> if b then checkpoint qs w s2 else (Inl (AssertionError msg), s2))"
  using assms
  by (simp add: checkpoint_def seq_all_append py_assert_eq split: sum.splits)

theorem assert_block_stops_at_first_failure_witness:
  "checkpoint [(on_recruiter_dashboard, Some ''Recruiter dashboard not loaded or URL mismatch'')]
      bare_dashboard (init_state\<lparr>frame_var := Some (OfPage 0)\<rparr>) =
     (Inr (), \<lparr>trace = [FrameUrl (OfPage 0)], pw_var = None, browser_var = None,
        context_var = None, page_var = None, frame_var = Some (OfPage 0)\<rparr>)
   \<and> bind get_frame (\<lambda>fr. await returns_bool (IsVisible (Locator fr ''text=Post a Job'')))
      bare_dashboard \<lparr>trace = [FrameUrl (OfPage 0)], pw_var = None, browser_var = None,
        context_var = None, page_var = None, frame_var = Some (OfPage 0)\<rparr> =
     (Inr False, \<lparr>trace = [FrameUrl (OfPage 0), IsVisible (Locator (OfPage 0) ''text=Post a Job'')],
        pw_var = None, browser_var = None, context_var = None, page_var = None,
        frame_var = Some (OfPage 0)\<rparr>)
   \<and> seq_all tc002_checks bare_dashboard (init_state\<lparr>frame_var := Some (OfPage 0)\<rparr>) =
     (Inl (AssertionError (Some ''Post a Job feature not accessible'')),
      \<lparr>trace = [FrameUrl (OfPage 0), IsVisible (Locator (OfPage 0) ''text=Post a Job'')],
        pw_var = None, browser_var = None, context_var = None, page_var = None,
        frame_var = Some (OfPage 0)\<rparr>)"
proof -
  have 1: "checkpoint [(on_recruiter_dashboard, Some ''Recruiter dashboard not loaded or URL mismatch'')]
      bare_dashboard (init_state\<lparr>frame_var := Some (OfPage 0)\<rparr>) =
     (Inr (), \<lparr>trace = [FrameUrl (OfPage 0)], pw_var = None, browser_var = None,
        context_var = None, page_var = None, frame_var = Some (OfPage 0)\<rparr>)"
    by (simp add: checkpoint_def on_recruiter_dashboard_def run_defs world_defs sublist_code)
  have 2: "bind get_frame (\<lambda>fr. await returns_bool (IsVisible (Locator fr ''text=Post a Job'')))
      bare_dashboard \<lparr>trace = [FrameUrl (OfPage 0)], pw_var = None, browser_var = None,
        context_var = None, page_var = None, frame_var = Some (OfPage 0)\<rparr> =
     (Inr False, \<lparr>trace = [FrameUrl (OfPage 0), IsVisible (Locator (OfPage 0) ''text=Post a Job'')],
        pw_var = None, browser_var = None, context_var = None, page_var = None,
        frame_var = Some (OfPage 0)\<rparr>)"
    by (simp add: run_defs world_defs)
  have 3: "seq_all tc002_checks = checkpoint
     ([(on_recruiter_dashboard, Some ''Recruiter dashboard not loaded or URL mismatch'')]
      @ (bind get_frame (\<lambda>fr. await returns_bool (IsVisible (Locator fr ''text=Post a Job''))),
         Some ''Post a Job feature not accessible'')
      # [(bind get_frame (\<lambda>fr. await returns_bool
            (IsVisible (Locator fr ''text=Application Management''))),
          Some ''Application Management feature not accessible''),
         (bind get_frame (\<lambda>fr. await returns_bool (IsVisible (Locator fr ''text=Interviewing''))),
          Some ''Interviewing feature not accessible'')])"
    by (simp add: checkpoint_def tc002_checks_def frame_visible_def)
  from assert_block_stops_at_first_failure
    [where cond = "bind get_frame
       (\<lambda>fr. await returns_bool (IsVisible (Locator fr ''text=Post a Job'')))"
     and w = bare_dashboard, OF 1 2] 1 2
  show ?thesis
    unfolding 3 by simp
qed

text \<open>
  The claim as stated fails in TC002 when the login did not go through: all four
  predicates of the checkpoint are false there, the first one is evaluated and raises, and
  the visibility of the three features is never asked for.
\<close>

theorem later_assertions_not_evaluated_counterexample:
  "fst (asyncio_run tc002_steps logged_out) =
     Inl (AssertionError (Some ''Recruiter dashboard not loaded or URL mismatch''))
   \<and> IsVisible (Locator (OfPage 0) ''text=Recruiter Dashboard'')
       \<in> set (trace (snd (asyncio_run tc002_steps logged_out)))
   \<and> IsVisible (Locator (OfPage 0) ''text=Post a Job'')
       \<notin> set (trace (snd (asyncio_run tc002_steps logged_out)))
   \<and> IsVisible (Locator (OfPage 0) ''text=Application Management'')
       \<notin> set (trace (snd (asyncio_run tc002_steps logged_out)))
   \<and> IsVisible (Locator (OfPage 0) ''text=Interviewing'')
       \<notin> set (trace (snd (asyncio_run tc002_steps logged_out)))"
  by (simp add: run_defs world_defs tc002_steps_def tc002_actions_def
      tc002_checks_def frame_visible_def on_recruiter_dashboard_def sublist_code
      sign_in_link_def email_input_def password_input_def submit_button_def)

section \<open>Steps that fail\<close>

text \<open>
  C4, as amended.  A click or fill step that fails raises: the exception of the failing
  call leaves the step and, as no script catches it, the \<^verbatim>\<open>try\<close> block.  When the statements
  before the step returned and the step raises, the \<^verbatim>\<open>try\<close> block ends with that exception
  in the state the step left, whatever statements follow: none of them is run.  The
  \<^verbatim>\<open>finally\<close> block then runs, and the exception leaves the run unless a close raises.
\<close>

theorem failed_step_ends_the_try_block:
  assumes "seq_all (prologue @ pre) w init_state = (Inr (), s1)"
    and "step = click_step path \<or> step = fill_step path v"
    and "step w s1 = (Inl e, s2)"
  shows "seq_all (prologue @ pre @ step # rest) w init_state = (Inl e, s2)
     \<and> asyncio_run (pre @ step # rest) w =
        ((case first_raise w (length (trace s2)) (closes_due s2) of
            None \<Rightarrow> Inl e | Some e' \<Rightarrow> Inl (Playwright e')),
         s2\<lparr>trace := trace s2 @ attempted w (length (trace s2)) (closes_due s2)\<rparr>)"
proof -
  from seq_all_raise [where m = step and ys = rest, OF assms(1,3)]
  have body: "seq_all (prologue @ pre @ step # rest) w init_state = (Inl e, s2)" by simp
  from run_test_eq [OF body] body show ?thesis by (simp add: asyncio_run_def)
qed

theorem failed_step_ends_the_try_block_witness:
  "seq_all (prologue @ [click_step sign_in_link]) fill_times_out init_state =
     (Inr (), after_calm_prologue\<lparr>frame_var := Some (OfPage 0),
        trace := calm_prologue_trace @ [ContextPages, WaitForTimeout 0 3000,
          Click (Nth (Locator (OfPage 0) sign_in_link) 0) (Some 5000)]\<rparr>)
   \<and> asyncio_run tc002_steps fill_times_out =
     (Inl (Playwright PlaywrightTimeoutError),
      after_calm_prologue\<lparr>frame_var := Some (OfPage 0),
        trace := calm_prologue_trace @ [ContextPages, WaitForTimeout 0 3000,
          Click (Nth (Locator (OfPage 0) sign_in_link) 0) (Some 5000),
          ContextPages, WaitForTimeout 0 3000,
          Fill (Nth (Locator (OfPage 0) email_input) 0) ''recruiter@example.com'',
          ContextClose, BrowserClose, PwStop]\<rparr>)"
proof -
  have 1: "seq_all (prologue @ [click_step sign_in_link]) fill_times_out init_state =
     (Inr (), after_calm_prologue\<lparr>frame_var := Some (OfPage 0),
        trace := calm_prologue_trace @ [ContextPages, WaitForTimeout 0 3000,
          Click (Nth (Locator (OfPage 0) sign_in_link) 0) (Some 5000)]\<rparr>)"
    by (simp add: run_defs world_defs)
  have 2: "fill_step email_input ''recruiter@example.com'' fill_times_out
      (after_calm_prologue\<lparr>frame_var := Some (OfPage 0),
        trace := calm_prologue_trace @ [ContextPages, WaitForTimeout 0 3000,
          Click (Nth (Locator (OfPage 0) sign_in_link) 0) (Some 5000)]\<rparr>) =
     (Inl (Playwright PlaywrightTimeoutError),
      after_calm_prologue\<lparr>frame_var := Some (OfPage 0),
        trace := calm_prologue_trace @ [ContextPages, WaitForTimeout 0 3000,
          Click (Nth (Locator (OfPage 0) sign_in_link) 0) (Some 5000),
          ContextPages, WaitForTimeout 0 3000,
          Fill (Nth (Locator (OfPage 0) email_input) 0) ''recruiter@example.com'']\<rparr>)"
    by (simp add: run_defs world_defs)
  have 3: "tc002_steps = [click_step sign_in_link]
      @ fill_step email_input ''recruiter@example.com'' # tl (tl tc002_steps)"
    by (simp add: tc002_steps_def tc002_actions_def)
  have 4: "fill_step email_input ''recruiter@example.com'' = click_step email_input
      \<or> fill_step email_input ''recruiter@example.com''
        = fill_step email_input ''recruiter@example.com''"
    by simp
  from failed_step_ends_the_try_block
    [where step = "fill_step email_input ''recruiter@example.com''" and w = fill_times_out
       and rest = "tl (tl tc002_steps)", OF 1 4 2] 1
  show ?thesis
    unfolding 3 [symmetric]
    by (simp add: closes_due_def world_defs)
qed

text \<open>
  The claim as stated fails in TC001 when the first click times out: the fill that follows
  is never made, and \<^verbatim>\<open>context.pages\<close> is read once, by the step that failed.
\<close>

theorem later_steps_not_executed_counterexample:
  "fst (asyncio_run tc001_steps click_times_out) = Inl (Playwright PlaywrightTimeoutError)
   \<and> Fill (Nth (Locator (OfPage 0)
         ''xpath=html/body/div/main/div/div/div[2]/form/div/input'') 0) ''Test Candidate''
       \<notin> set (trace (snd (asyncio_run tc001_steps click_times_out)))
   \<and> length (filter (\<lambda>c. c = ContextPages) (trace (snd (asyncio_run tc001_steps click_times_out))))
       = 1"
  by (simp add: run_defs world_defs tc001_steps_def)

section \<open>The scroll step\<close>

lemma scroll_step_raises: "\<exists>e s'. scroll_step w s = (Inl e, s')"
  using scroll_step_never_returns [of w s] by (elim exE) (intro exI)

lemma scroll_cuts:
  "run_test (pre @ scroll_step # suf) = run_test (pre @ [scroll_step])"
proof -
  have "seq_all ((prologue @ pre) @ scroll_step # suf) = seq_all ((prologue @ pre) @ [scroll_step])"
    by (rule seq_all_dead_code) (rule scroll_step_raises)
  then show ?thesis by (simp add: run_test_def)
qed

lemma scroll_always_fails:
  assumes "\<And>m. m \<in> set pre \<Longrightarrow> raises_only is_error m"
  shows "\<exists>e. fst (asyncio_run (pre @ scroll_step # suf) w) = Inl e \<and> is_error e"
proof -
  have "\<exists>e. fst (seq_all ((prologue @ pre) @ [scroll_step]) w init_state) = Inl e"
    by (rule seq_all_never_returns) (rule scroll_step_raises)
  then have "\<exists>e. fst (run_test (pre @ [scroll_step]) w init_state) = Inl e"
    unfolding run_test_def by (intro try_finally_never_returns) simp
  then obtain e where e: "fst (run_test (pre @ [scroll_step]) w init_state) = Inl e" ..
  have "raises_only is_error (seq_all (prologue @ pre @ [scroll_step]))"
  proof (rule r_seq_all)
    fix m assume "m \<in> set (prologue @ pre @ [scroll_step])"
    then consider "m \<in> set prologue" | "m \<in> set pre" | "m = scroll_step" by auto
    then show "raises_only is_error m"
      by cases (simp_all add: assms r_prologue r_scroll_step)
  qed
  then have "raises_only is_error (run_test (pre @ [scroll_step]))"
    unfolding run_test_def by (intro r_try_finally r_finally_block)
  from raises_onlyD [OF this e] e show ?thesis
    by (simp add: asyncio_run_def scroll_cuts [of pre suf])
qed

lemma scroll_reached:
  assumes "steps \<in> set all_scripts" and "steps = pre @ scroll_step # suf"
    and "seq_all (prologue @ pre) w init_state = (Inr (), s1)"
  shows "seq_all (prologue @ steps) w init_state = (Inl (NameError ''window''), s1)"
proof -
  from assms(2) have "set pre \<subseteq> set steps" by auto
  from page_bound_after [OF assms(1) this assms(3)] obtain p where "page_var s1 = Some p"
    by auto
  then have "scroll_step w s1 = (Inl (NameError ''window''), s1)"
    by (rule scroll_step_eq)
  with assms(3) have "seq_all ((prologue @ pre) @ scroll_step # suf) w init_state =
      (Inl (NameError ''window''), s1)"
    by (rule seq_all_raise)
  with assms(2) show ?thesis by simp
qed

lemma scroll_script:
  assumes "steps \<in> set all_scripts" and "steps = pre @ scroll_step # suf"
    and "\<And>m. m \<in> set pre \<Longrightarrow> raises_only is_error m"
  shows "run_test steps = run_test (pre @ [scroll_step])
     \<and> (\<exists>e. fst (asyncio_run steps w) = Inl e \<and> is_error e)
     \<and> (\<forall>s1. seq_all (prologue @ pre) w init_state = (Inr (), s1) \<longrightarrow>
          seq_all (prologue @ steps) w init_state = (Inl (NameError ''window''), s1)
          \<and> asyncio_run steps w =
             ((case first_raise w (length (trace s1)) (closes_due s1) of
                 None \<Rightarrow> Inl (NameError ''window'') | Some e \<Rightarrow> Inl (Playwright e)),
              s1\<lparr>trace := trace s1 @ attempted w (length (trace s1)) (closes_due s1)\<rparr>))"
proof (intro conjI allI impI)
  show "run_test steps = run_test (pre @ [scroll_step])"
    by (simp add: assms(2) scroll_cuts [of pre suf])
  show "\<exists>e. fst (asyncio_run steps w) = Inl e \<and> is_error e"
    unfolding assms(2) by (rule scroll_always_fails) (rule assms(3))
next
  fix s1 assume "seq_all (prologue @ pre) w init_state = (Inr (), s1)"
  from scroll_reached [OF assms(1,2) this]
  show body: "seq_all (prologue @ steps) w init_state = (Inl (NameError ''window''), s1)" .
  from run_test_eq [OF body]
  show "asyncio_run steps w =
             ((case first_raise w (length (trace s1)) (closes_due s1) of
                 None \<Rightarrow> Inl (NameError ''window'') | Some e \<Rightarrow> Inl (Playwright e)),
              s1\<lparr>trace := trace s1 @ attempted w (length (trace s1)) (closes_due s1)\<rparr>)"
    by (simp add: asyncio_run_def)
qed

text \<open>
  C10.  TC001 (sixth statement after the skeleton), TC013 System Build and TC016 (third
  statement) contain \<^verbatim>\<open>await page.mouse.wheel(0, window.innerHeight)\<close>.  Whenever a run
  reaches that statement it raises \<^verbatim>\<open>NameError\<close> for \<^verbatim>\<open>window\<close>, in the state the preceding
  statements left and without making a call.  Each of the three scripts therefore behaves,
  in every environment, exactly like the script cut off after its first scroll step: no
  later statement, and so none of the assertions, is ever run.  No run of these scripts
  returns normally, and none ends with an assertion failure: the run ends with an error.
  The \<^verbatim>\<open>finally\<close> block still runs after the \<^verbatim>\<open>NameError\<close>, which leaves the run unless a
  close raises.
\<close>

theorem scroll_step_ends_the_run:
  assumes "(steps, k) \<in> {(tc001_steps, 5), (tc013_build_steps, 2), (tc016_steps, 2)}"
  shows "steps ! k = scroll_step
     \<and> run_test steps = run_test (take k steps @ [scroll_step])
     \<and> (\<exists>e. fst (asyncio_run steps w) = Inl e \<and> is_error e)
     \<and> (\<forall>s1. seq_all (prologue @ take k steps) w init_state = (Inr (), s1) \<longrightarrow>
          seq_all (prologue @ steps) w init_state = (Inl (NameError ''window''), s1)
          \<and> asyncio_run steps w =
             ((case first_raise w (length (trace s1)) (closes_due s1) of
                 None \<Rightarrow> Inl (NameError ''window'') | Some e \<Rightarrow> Inl (Playwright e)),
              s1\<lparr>trace := trace s1 @ attempted w (length (trace s1)) (closes_due s1)\<rparr>))"
proof -
  from assms consider "steps = tc001_steps" "k = 5" | "steps = tc013_build_steps" "k = 2"
    | "steps = tc016_steps" "k = 2" by (elim insertE emptyE) simp_all
  then show ?thesis
  proof cases
    case 1
    have a: "steps \<in> set all_scripts" by (simp add: 1 all_scripts_def)
    have b: "steps = take k steps @ scroll_step # drop (Suc k) steps"
      by (simp add: 1 tc001_steps_def)
    have c: "m \<in> set (take k steps) \<Longrightarrow> raises_only is_error m" for m
      by (auto simp: 1 tc001_steps_def r_click_step r_fill_step)
    have d: "steps ! k = scroll_step" by (simp add: 1 tc001_steps_def)
    show ?thesis by (rule conjI [OF d scroll_script [OF a b c]])
  next
    case 2
    have a: "steps \<in> set all_scripts" by (simp add: 2 all_scripts_def)
    have b: "steps = take k steps @ scroll_step # drop (Suc k) steps"
      by (simp add: 2 tc013_build_steps_def)
    have c: "m \<in> set (take k steps) \<Longrightarrow> raises_only is_error m" for m
      by (auto simp: 2 tc013_build_steps_def r_click_step r_goto_step)
    have d: "steps ! k = scroll_step" by (simp add: 2 tc013_build_steps_def)
    show ?thesis by (rule conjI [OF d scroll_script [OF a b c]])
  next
    case 3
    have a: "steps \<in> set all_scripts" by (simp add: 3 all_scripts_def)
    have b: "steps = take k steps @ scroll_step # drop (Suc k) steps"
      by (simp add: 3 tc016_steps_def)
    have c: "m \<in> set (take k steps) \<Longrightarrow> raises_only is_error m" for m
      by (auto simp: 3 tc016_steps_def r_click_step r_goto_step)
    have d: "steps ! k = scroll_step" by (simp add: 3 tc016_steps_def)
    show ?thesis by (rule conjI [OF d scroll_script [OF a b c]])
  qed
qed

theorem scroll_step_ends_the_run_witness:
  "(tc016_steps, 2) \<in> {(tc001_steps, 5), (tc013_build_steps, 2), (tc016_steps, 2)}
   \<and> seq_all (prologue @ take 2 tc016_steps) calm init_state =
       (Inr (),
        \<lparr>trace = calm_prologue_trace @
           [Goto 0 ''http://localhost:3000/test'' None 10000, ContextPages,
            WaitForTimeout 0 3000,
            Click (Nth (Locator (OfPage 0) ''xpath=html/body/div/header/div/div/a'') 0)
              (Some 5000)],
         pw_var = Some 0, browser_var = Some 0, context_var = Some 0, page_var = Some 0,
         frame_var = Some (OfPage 0)\<rparr>)
   \<and> asyncio_run tc016_steps calm =
       (Inl (NameError ''window''),
        \<lparr>trace = calm_prologue_trace @
           [Goto 0 ''http://localhost:3000/test'' None 10000, ContextPages,
            WaitForTimeout 0 3000,
            Click (Nth (Locator (OfPage 0) ''xpath=html/body/div/header/div/div/a'') 0)
              (Some 5000),
            ContextClose, BrowserClose, PwStop],
         pw_var = Some 0, browser_var = Some 0, context_var = Some 0, page_var = Some 0,
         frame_var = Some (OfPage 0)\<rparr>)"
proof -
  have reach: "seq_all (prologue @ take 2 tc016_steps) calm init_state =
       (Inr (),
        \<lparr>trace = calm_prologue_trace @
           [Goto 0 ''http://localhost:3000/test'' None 10000, ContextPages,
            WaitForTimeout 0 3000,
            Click (Nth (Locator (OfPage 0) ''xpath=html/body/div/header/div/div/a'') 0)
              (Some 5000)],
         pw_var = Some 0, browser_var = Some 0, context_var = Some 0, page_var = Some 0,
         frame_var = Some (OfPage 0)\<rparr>)"
    by (simp add: run_defs world_defs tc016_steps_def)
  have "(tc016_steps, 2) \<in> {(tc001_steps, 5), (tc013_build_steps, 2), (tc016_steps, 2)}"
    by simp
  from scroll_step_ends_the_run [OF this, of calm] reach show ?thesis
    by (simp add: closes_due_def world_defs)
qed

section \<open>Resolving elements\<close>

lemma last_page_eq:
  "pages_at w (length (trace s)) ContextPages = ps \<Longrightarrow> ps \<noteq> [] \<Longrightarrow>
   last_page w s = (Inr (), s\<lparr>frame_var := Some (OfPage (last ps)), trace := trace s @ [ContextPages]\<rparr>)"
  by (cases ps) (simp_all add: last_page_def bind_def sync_def assign_def log_def)

lemma click_step_eq:
  assumes "page_var s = Some p" and "pages_at w (length (trace s)) ContextPages = ps"
    and "ps \<noteq> []"
    and "returns_none w (Suc (length (trace s))) (WaitForTimeout p 3000) = Inr ()"
  shows "click_step path w s =
     ((case returns_none w (Suc (Suc (length (trace s))))
              (Click (Nth (Locator (OfPage (last ps)) path) 0) (Some 5000)) of
         Inl e \<Rightarrow> Inl (Playwright e) | Inr u \<Rightarrow> Inr ()),
      s\<lparr>frame_var := Some (OfPage (last ps)),
        trace := trace s @ [ContextPages, WaitForTimeout p 3000,
          Click (Nth (Locator (OfPage (last ps)) path) 0) (Some 5000)]\<rparr>)"
  using assms
  by (simp add: click_step_def Let_def bind_def last_page_eq get_frame_def get_page_def
      await_def log_def split: sum.splits)

lemma fill_step_eq:
  assumes "page_var s = Some p" and "pages_at w (length (trace s)) ContextPages = ps"
    and "ps \<noteq> []"
    and "returns_none w (Suc (length (trace s))) (WaitForTimeout p 3000) = Inr ()"
  shows "fill_step path v w s =
     ((case returns_none w (Suc (Suc (length (trace s))))
              (Fill (Nth (Locator (OfPage (last ps)) path) 0) v) of
         Inl e \<Rightarrow> Inl (Playwright e) | Inr u \<Rightarrow> Inr ()),
      s\<lparr>frame_var := Some (OfPage (last ps)),
        trace := trace s @ [ContextPages, WaitForTimeout p 3000,
          Fill (Nth (Locator (OfPage (last ps)) path) 0) v]\<rparr>)"
  using assms
  by (simp add: fill_step_def Let_def bind_def last_page_eq get_frame_def get_page_def
      await_def log_def split: sum.splits)

text \<open>
  C9, as amended.  Resolving an element is not a call of its own and has no result to
  inspect: \<^verbatim>\<open>frame.locator(path).nth(0)\<close> builds a locator without asking the browser, whether
  or not anything matches, and there is no \<^verbatim>\<open>NotFound\<close> value.  A step reads
  \<^verbatim>\<open>context.pages\<close>, waits 3000 ms and then acts on the locator; the browser is asked about
  the element only by that last call.  If the call returns, the step returns; if it raises
  (a missing element is a \<^verbatim>\<open>TimeoutError\<close> of the click or fill), the step raises the same
  exception, and the statements that follow the step are not run: the script does not get
  to decide.
\<close>

theorem missing_element_raises_in_the_action:
  assumes "page_var s = Some p" and "pages_at w (length (trace s)) ContextPages = ps"
    and "ps \<noteq> []"
    and "returns_none w (Suc (length (trace s))) (WaitForTimeout p 3000) = Inr ()"
  shows "click_step path w s =
     ((case returns_none w (Suc (Suc (length (trace s))))
              (Click (Nth (Locator (OfPage (last ps)) path) 0) (Some 5000)) of
         Inl e \<Rightarrow> Inl (Playwright e) | Inr u \<Rightarrow> Inr ()),
      s\<lparr>frame_var := Some (OfPage (last ps)),
        trace := trace s @ [ContextPages, WaitForTimeout p 3000,
          Click (Nth (Locator (OfPage (last ps)) path) 0) (Some 5000)]\<rparr>)
   \<and> fill_step path v w s =
     ((case returns_none w (Suc (Suc (length (trace s))))
              (Fill (Nth (Locator (OfPage (last ps)) path) 0) v) of
         Inl e \<Rightarrow> Inl (Playwright e) | Inr u \<Rightarrow> Inr ()),
      s\<lparr>frame_var := Some (OfPage (last ps)),
        trace := trace s @ [ContextPages, WaitForTimeout p 3000,
          Fill (Nth (Locator (OfPage (last ps)) path) 0) v]\<rparr>)
   \<and> (\<forall>e. returns_none w (Suc (Suc (length (trace s))))
              (Click (Nth (Locator (OfPage (last ps)) path) 0) (Some 5000)) = Inl e \<longrightarrow>
          seq_all (click_step path # rest) w s = click_step path w s
          \<and> fst (click_step path w s) = Inl (Playwright e))
   \<and> (\<forall>e. returns_none w (Suc (Suc (length (trace s))))
              (Fill (Nth (Locator (OfPage (last ps)) path) 0) v) = Inl e \<longrightarrow>
          seq_all (fill_step path v # rest) w s = fill_step path v w s
          \<and> fst (fill_step path v w s) = Inl (Playwright e))"
  by (simp add: click_step_eq [OF assms] fill_step_eq [OF assms])

theorem missing_element_raises_in_the_action_witness:
  "page_var after_calm_prologue = Some 0
   \<and> pages_at click_times_out (length (trace after_calm_prologue)) ContextPages = [0]
   \<and> returns_none click_times_out (Suc (length (trace after_calm_prologue)))
        (WaitForTimeout 0 3000) = Inr ()
   \<and> returns_none click_times_out (Suc (Suc (length (trace after_calm_prologue))))
        (Click (Nth (Locator (OfPage 0) sign_in_link) 0) (Some 5000))
        = Inl PlaywrightTimeoutError
   \<and> seq_all (click_step sign_in_link # tl tc007_steps) click_times_out after_calm_prologue =
       (Inl (Playwright PlaywrightTimeoutError),
        after_calm_prologue\<lparr>frame_var := Some (OfPage 0),
          trace := calm_prologue_trace @ [ContextPages, WaitForTimeout 0 3000,
            Click (Nth (Locator (OfPage 0) sign_in_link) 0) (Some 5000)]\<rparr>)"
proof -
  have 1: "page_var after_calm_prologue = Some 0"
    by (simp add: world_defs)
  have 2: "pages_at click_times_out (length (trace after_calm_prologue)) ContextPages = [0]"
    by (simp add: world_defs)
  have 3: "[0::nat] \<noteq> []" by simp
  have 4: "returns_none click_times_out (Suc (length (trace after_calm_prologue)))
        (WaitForTimeout 0 3000) = Inr ()"
    by (simp add: world_defs)
  have 5: "returns_none click_times_out (Suc (Suc (length (trace after_calm_prologue))))
        (Click (Nth (Locator (OfPage 0) sign_in_link) 0) (Some 5000))
        = Inl PlaywrightTimeoutError"
    by (simp add: world_defs)
  from missing_element_raises_in_the_action
    [OF 1 2 3 4, of sign_in_link "''''" "tl tc007_steps"] 1 2 4 5
  show ?thesis by (simp add: world_defs)
qed

text \<open>
  The claim as stated fails wherever an element is missing: in TC007 the first click cannot
  find the sign-in link, the step ends with the thrown \<^verbatim>\<open>TimeoutError\<close>, and so does the run.
\<close>

theorem missing_element_is_thrown_counterexample:
  "fst (click_step sign_in_link click_times_out after_calm_prologue)
     = Inl (Playwright PlaywrightTimeoutError)
   \<and> fst (asyncio_run tc007_steps click_times_out) = Inl (Playwright PlaywrightTimeoutError)"
  by (simp add: run_defs world_defs tc007_steps_def
      tc007_actions_def)

section \<open>Navigation\<close>

lemma emits_prologue_calls:
  "m \<in> set prologue \<Longrightarrow> relates (emits (Collect prologue_call)) m"
  by (auto simp: prologue_def start_playwright_def launch_browser_def new_context_def
      set_default_timeout_def new_page_def goto_home_def settle_page_def settle_frames_def
      settle_frame_def
      intro!: relates_bind relates_await relates_assign relates_emit relates_get_page
        relates_get_frame relates_try_except_Error relates_sync relates_for_each preorder_emits)
     (auto simp: emits_def log_def)

lemma emits_mono: "A \<subseteq> B \<Longrightarrow> emits A w s s' \<Longrightarrow> emits B w s s'"
  by (auto simp: emits_def)

lemma navigate_home_eq:
  "page_var s = Some p \<Longrightarrow>
   seq_all [goto_home, settle_page] w s =
     (case returns_none w (length (trace s))
             (Goto p ''http://localhost:3000'' (Some ''commit'') 10000) of
        Inl e \<Rightarrow> (Inl (Playwright e),
          s\<lparr>trace := trace s @ [Goto p ''http://localhost:3000'' (Some ''commit'') 10000]\<rparr>)
      | Inr u \<Rightarrow> (Inr (),
          s\<lparr>trace := trace s @ [Goto p ''http://localhost:3000'' (Some ''commit'') 10000,
            WaitForLoadState (OfPage p) ''domcontentloaded'' 3000]\<rparr>))"
  by (simp add: goto_home_def settle_page_def bind_def get_page_def await_def log_def
      try_except_Error_def split: sum.splits)

lemma steps_emit_step_calls:
  assumes "steps \<in> set all_scripts"
  shows "\<exists>cs. trace (snd (seq_all steps w s)) = trace s @ cs \<and> (\<forall>c\<in>set cs. step_call c)"
proof -
  have t: "tolerates (emits (Collect step_call))"
    by (rule tolerates_emits) simp
  have "relates (emits (Collect step_call)) (seq_all steps)"
    by (rule t_seq_all [OF t]) (rule t_all_scripts [OF t assms])
  from relatesD [OF this, of w s] show ?thesis
    by (auto simp: emits_def)
qed

lemma prologue_emits_prologue_calls:
  "\<exists>cs. trace (snd (seq_all prologue w s)) = trace s @ cs \<and> (\<forall>c\<in>set cs. prologue_call c)"
proof -
  have "relates (emits (Collect prologue_call)) (seq_all prologue)"
    by (rule relates_seq_all [OF preorder_emits]) (rule emits_prologue_calls)
  from relatesD [OF this, of w s] show ?thesis
    by (auto simp: emits_def)
qed

lemma goto_timeout_cases:
  "prologue_call c \<or> step_call c \<or> teardown_call c \<Longrightarrow> c = Goto p url wu t \<Longrightarrow> t = 10000"
  by auto

lemma attempted_subset: "set (attempted w t cs) \<subseteq> set cs"
  using attempted_prefix [of w t cs] by (rule set_mono_prefix)

lemma closes_due_teardown: "c \<in> set (closes_due s) \<Longrightarrow> teardown_call c"
  by (auto simp: closes_due_def split: option.splits)

lemma run_calls:
  assumes "steps \<in> set all_scripts" and "c \<in> set (trace (snd (asyncio_run steps w)))"
  shows "prologue_call c \<or> step_call c \<or> teardown_call c"
proof -
  obtain r s1 where body: "seq_all (prologue @ steps) w init_state = (r, s1)"
    by (cases "seq_all (prologue @ steps) w init_state")
  obtain r0 s0 where pro: "seq_all prologue w init_state = (r0, s0)"
    by (cases "seq_all prologue w init_state")
  from prologue_emits_prologue_calls [of w init_state] pro
  have 0: "\<forall>c\<in>set (trace s0). prologue_call c" by (auto simp: init_state_def)
  have 1: "\<forall>c\<in>set (trace s1). prologue_call c \<or> step_call c"
  proof (cases r0)
    case (Inl e)
    with pro body have "s1 = s0" by (simp add: seq_all_append)
    with 0 show ?thesis by simp
  next
    case (Inr u)
    with pro body have "seq_all steps w s0 = (r, s1)" by (simp add: seq_all_append)
    with steps_emit_step_calls [OF assms(1), of w s0] 0 show ?thesis by auto
  qed
  from run_test_eq [OF body]
  have "trace (snd (asyncio_run steps w)) =
      trace s1 @ attempted w (length (trace s1)) (closes_due s1)"
    by (simp add: asyncio_run_def)
  with assms(2) consider "c \<in> set (trace s1)"
    | "c \<in> set (attempted w (length (trace s1)) (closes_due s1))" by auto
  then show ?thesis
  proof cases
    case 1 with \<open>\<forall>c\<in>set (trace s1). prologue_call c \<or> step_call c\<close> show ?thesis by blast
  next
    case 2
    with attempted_subset have "c \<in> set (closes_due s1)" by blast
    then show ?thesis by (simp add: closes_due_teardown)
  qed
qed

text \<open>
  C6, as amended.  The navigation of the skeleton (line 32) passes \<^verbatim>\<open>wait_until="commit"\<close> and
  \<^verbatim>\<open>timeout=10000\<close>, and is followed by a separate wait for \<^verbatim>\<open>domcontentloaded\<close> with a
  timeout of 3000 ms whose Playwright error is swallowed: if the navigation returns, the two
  statements return, whatever the wait answers.  The navigations that scripts make later
  (\<^verbatim>\<open>await page.goto(url, timeout=10000)\<close> in TC011, TC013 System Build, TC015 and TC016) are
  bounded by the same 10000 ms but pass no \<^verbatim>\<open>wait_until\<close>, so Playwright's default applies
  to them (the \<^verbatim>\<open>load\<close> event), and none of them is followed by a load-state wait: after the
  skeleton no script waits for a load state at all.
\<close>

theorem navigation_waits:
  "(page_var s = Some p \<longrightarrow>
      seq_all [goto_home, settle_page] w s =
        (case returns_none w (length (trace s))
                (Goto p ''http://localhost:3000'' (Some ''commit'') 10000) of
           Inl e \<Rightarrow> (Inl (Playwright e),
             s\<lparr>trace := trace s @ [Goto p ''http://localhost:3000'' (Some ''commit'') 10000]\<rparr>)
         | Inr u \<Rightarrow> (Inr (),
             s\<lparr>trace := trace s @ [Goto p ''http://localhost:3000'' (Some ''commit'') 10000,
               WaitForLoadState (OfPage p) ''domcontentloaded'' 3000]\<rparr>)))
   \<and> (steps \<in> set all_scripts \<longrightarrow>
        (\<exists>cs. trace (snd (seq_all steps w s)) = trace s @ cs
           \<and> (\<forall>c\<in>set cs. \<not> is_load_wait c
                \<and> (\<forall>q url wu t. c = Goto q url wu t \<longrightarrow> wu = None \<and> t = 10000))))
   \<and> (steps \<in> set all_scripts \<longrightarrow>
        (\<forall>c\<in>set (trace (snd (asyncio_run steps w))).
           \<forall>q url wu t. c = Goto q url wu t \<longrightarrow> t = 10000))"
proof (intro conjI impI)
  assume "page_var s = Some p"
  then show "seq_all [goto_home, settle_page] w s =
        (case returns_none w (length (trace s))
                (Goto p ''http://localhost:3000'' (Some ''commit'') 10000) of
           Inl e \<Rightarrow> (Inl (Playwright e),
             s\<lparr>trace := trace s @ [Goto p ''http://localhost:3000'' (Some ''commit'') 10000]\<rparr>)
         | Inr u \<Rightarrow> (Inr (),
             s\<lparr>trace := trace s @ [Goto p ''http://localhost:3000'' (Some ''commit'') 10000,
               WaitForLoadState (OfPage p) ''domcontentloaded'' 3000]\<rparr>))"
    by (rule navigate_home_eq)
next
  assume "steps \<in> set all_scripts"
  from steps_emit_step_calls [OF this, of w s] obtain cs where
    cs: "trace (snd (seq_all steps w s)) = trace s @ cs" "\<forall>c\<in>set cs. step_call c" by blast
  have "\<not> is_load_wait c \<and> (\<forall>q url wu t. c = Goto q url wu t \<longrightarrow> wu = None \<and> t = 10000)"
    if "step_call c" for c using that by (cases c) simp_all
  with cs show "\<exists>cs. trace (snd (seq_all steps w s)) = trace s @ cs
           \<and> (\<forall>c\<in>set cs. \<not> is_load_wait c
                \<and> (\<forall>q url wu t. c = Goto q url wu t \<longrightarrow> wu = None \<and> t = 10000))"
    by blast
next
  assume a: "steps \<in> set all_scripts"
  show "\<forall>c\<in>set (trace (snd (asyncio_run steps w))).
           \<forall>q url wu t. c = Goto q url wu t \<longrightarrow> t = 10000"
    using run_calls [OF a] goto_timeout_cases by blast
qed

theorem navigation_waits_witness:
  "page_var (init_state\<lparr>page_var := Some 0\<rparr>) = Some 0
   \<and> tc016_steps \<in> set all_scripts
   \<and> seq_all [goto_home, settle_page] never_loaded (init_state\<lparr>page_var := Some 0\<rparr>) =
       (Inr (), init_state\<lparr>page_var := Some 0,
          trace := [Goto 0 ''http://localhost:3000'' (Some ''commit'') 10000,
            WaitForLoadState (OfPage 0) ''domcontentloaded'' 3000]\<rparr>)
   \<and> filter is_goto (trace (snd (asyncio_run tc016_steps never_loaded))) =
       [Goto 0 ''http://localhost:3000'' (Some ''commit'') 10000,
        Goto 0 ''http://localhost:3000/test'' None 10000]"
proof -
  have "filter is_goto (trace (snd (asyncio_run tc016_steps never_loaded))) =
       [Goto 0 ''http://localhost:3000'' (Some ''commit'') 10000,
        Goto 0 ''http://localhost:3000/test'' None 10000]"
    by (simp add: run_defs world_defs tc016_steps_def)
  with navigation_waits [of "init_state\<lparr>page_var := Some 0\<rparr>" 0 never_loaded tc016_steps]
  show ?thesis
    by (simp add: all_scripts_def init_state_def world_defs)
qed

text \<open>
  The claim as stated fails for the second navigation of TC011: it is made without
  \<^verbatim>\<open>wait_until\<close>, and the call after it is the next step's read of \<^verbatim>\<open>context.pages\<close>; the only
  load-state waits of the run are the two of the skeleton.
\<close>

theorem later_navigation_counterexample:
  "filter is_goto (trace (snd (asyncio_run tc011_steps calm))) =
     [Goto 0 ''http://localhost:3000'' (Some ''commit'') 10000,
      Goto 0 ''http://localhost:3000/jobs'' None 10000]
   \<and> filter is_load_wait (trace (snd (asyncio_run tc011_steps calm))) =
     [WaitForLoadState (OfPage 0) ''domcontentloaded'' 3000,
      WaitForLoadState (OfFrame 0) ''domcontentloaded'' 3000]
   \<and> trace (snd (asyncio_run tc011_steps calm)) ! 33 =
       Goto 0 ''http://localhost:3000/jobs'' None 10000
   \<and> trace (snd (asyncio_run tc011_steps calm)) ! 34 = ContextPages"
  by (simp add: run_defs world_defs tc011_steps_def)

section \<open>Steps and the active page\<close>

lemma q_preorder: "tolerates_quiet R \<Longrightarrow> preorder_on_states R"
  by (simp add: tolerates_quiet_def)

lemma q_ret: "tolerates_quiet R \<Longrightarrow> relates R (ret x)"
  by (simp add: relates_ret q_preorder)

lemma q_raise: "tolerates_quiet R \<Longrightarrow> relates R (raise e)"
  by (simp add: relates_raise q_preorder)

lemma q_get_page: "tolerates_quiet R \<Longrightarrow> relates R get_page"
  by (simp add: relates_get_page q_preorder)

lemma q_get_frame: "tolerates_quiet R \<Longrightarrow> relates R get_frame"
  by (simp add: relates_get_frame q_preorder)

lemma q_await:
  "tolerates_quiet R \<Longrightarrow> step_call c \<Longrightarrow> quiet_call c \<Longrightarrow> relates R (await answer c)"
  by (rule relates_await) (simp add: tolerates_quiet_def)

lemma q_sync:
  "tolerates_quiet R \<Longrightarrow> step_call c \<Longrightarrow> quiet_call c \<Longrightarrow> relates R (sync answer c)"
  by (rule relates_sync) (simp add: tolerates_quiet_def)

lemma q_emit: "tolerates_quiet R \<Longrightarrow> step_call c \<Longrightarrow> quiet_call c \<Longrightarrow> relates R (emit c)"
  by (rule relates_emit) (simp add: tolerates_quiet_def)

lemma q_bind:
  "tolerates_quiet R \<Longrightarrow> relates R m \<Longrightarrow> (\<And>x. relates R (f x)) \<Longrightarrow> relates R (bind m f)"
  by (simp add: relates_bind q_preorder)

lemma q_py_assert: "tolerates_quiet R \<Longrightarrow> relates R c \<Longrightarrow> relates R (py_assert c msg)"
  by (simp add: relates_py_assert q_preorder)

lemma q_seq_nil: "tolerates_quiet R \<Longrightarrow> relates R (seq_all [])"
  by (rule relates_seq_all) (simp_all add: q_preorder)

lemma q_seq_cons:
  "tolerates_quiet R \<Longrightarrow> relates R m \<Longrightarrow> relates R (seq_all ms) \<Longrightarrow>
   relates R (seq_all (m # ms))"
  by (simp add: seq_all_Cons_bind q_bind)

lemmas q_basic = q_ret q_raise q_get_page q_get_frame q_await q_sync q_emit q_bind q_py_assert
  q_seq_nil q_seq_cons

lemma q_goto_step: "tolerates_quiet R \<Longrightarrow> relates R (goto_step url)"
  by (simp add: goto_step_def q_basic)

lemma q_scroll_step: "tolerates_quiet R \<Longrightarrow> relates R scroll_step"
  by (simp add: scroll_step_def q_basic)

lemma q_asyncio_sleep: "tolerates_quiet R \<Longrightarrow> relates R (asyncio_sleep n)"
  by (simp add: asyncio_sleep_def q_basic)

lemma q_count_positive: "tolerates_quiet R \<Longrightarrow> relates R (count_positive l)"
  by (simp add: count_positive_def q_basic)

lemma q_frame_count_positive: "tolerates_quiet R \<Longrightarrow> relates R (frame_count_positive sel)"
  by (simp add: frame_count_positive_def q_basic q_count_positive)

lemma q_frame_visible: "tolerates_quiet R \<Longrightarrow> relates R (frame_visible sel msg)"
  by (simp add: frame_visible_def q_basic)

lemma q_page_count: "tolerates_quiet R \<Longrightarrow> relates R (page_count sel)"
  by (simp add: page_count_def q_basic)

lemma q_page_text_content: "tolerates_quiet R \<Longrightarrow> relates R (page_text_content sel)"
  by (simp add: page_text_content_def q_basic)

lemma q_on_recruiter_dashboard: "tolerates_quiet R \<Longrightarrow> relates R on_recruiter_dashboard"
  by (simp add: on_recruiter_dashboard_def q_basic)

lemma q_extract: "tolerates_quiet R \<Longrightarrow> relates R (extract_coverage_percentage text)"
  by (simp add: extract_coverage_percentage_def q_basic split: option.splits)

lemmas q_steps = q_basic q_goto_step q_scroll_step q_asyncio_sleep q_count_positive
  q_frame_count_positive q_frame_visible q_page_count q_page_text_content
  q_on_recruiter_dashboard q_extract

lemma q_tc016_checks: "tolerates_quiet R \<Longrightarrow> relates R tc016_checks"
  by (simp add: tc016_checks_def Let_def q_steps)

lemma tolerates_quiet_emits: "tolerates_quiet (emits (Collect quiet_call))"
  unfolding tolerates_quiet_def
  by (auto simp: preorder_emits) (auto simp: emits_def log_def)

lemma fresh_from_append:
  "fresh_from w t cur (xs @ ys) =
     (fresh_from w t cur xs \<and> fresh_from w (t + length xs) (cur_after w t cur xs) ys)"
  by (induction xs arbitrary: t cur) simp_all

lemma preorder_fresh_rel: "preorder_on_states fresh_rel"
  unfolding preorder_on_states_def
proof (intro conjI allI impI)
  fix w :: world and s :: state
  show "fresh_rel w s s" by (simp add: fresh_rel_def)
next
  fix w :: world and s t u :: state
  assume "fresh_rel w s t" and "fresh_rel w t u"
  then obtain cs ds where cs: "trace t = trace s @ cs" "\<forall>cur. fresh_from w (length (trace s)) cur cs"
    and ds: "trace u = trace t @ ds" "\<forall>cur. fresh_from w (length (trace t)) cur ds"
    unfolding fresh_rel_def by blast
  from cs ds have "trace u = trace s @ (cs @ ds)
      \<and> (\<forall>cur. fresh_from w (length (trace s)) cur (cs @ ds))"
    by (simp add: fresh_from_append)
  then show "fresh_rel w s u" unfolding fresh_rel_def by blast
qed

lemma quiet_calls_fresh: "\<forall>c\<in>set cs. quiet_call c \<Longrightarrow> fresh_from w t cur cs"
proof (induction cs arbitrary: t cur)
  case Nil
  show ?case by simp
next
  case (Cons c cs)
  then have "quiet_call c" by simp
  then have "acts_on_fresh cur c" by (cases c) simp_all
  with Cons show ?case by simp
qed

lemma f_quiet: "relates (emits (Collect quiet_call)) m \<Longrightarrow> relates fresh_rel m"
  unfolding relates_def emits_def fresh_rel_def
  by (meson quiet_calls_fresh mem_Collect_eq subsetD)

lemma f_last_page: "relates fresh_rel last_page"
  unfolding relates_def fresh_rel_def
  by (simp add: last_page_def bind_def sync_def raise_def assign_def log_def split: list.splits)

lemma f_click_step: "relates fresh_rel (click_step path)"
  unfolding relates_def fresh_rel_def
  by (simp add: click_step_def Let_def last_page_def bind_def sync_def raise_def assign_def
      log_def get_frame_def get_page_def await_def split: list.splits option.splits sum.splits)

lemma f_fill_step: "relates fresh_rel (fill_step path v)"
  unfolding relates_def fresh_rel_def
  by (simp add: fill_step_def Let_def last_page_def bind_def sync_def raise_def assign_def
      log_def get_frame_def get_page_def await_def split: list.splits option.splits sum.splits)

lemmas e_quiet = tolerates_quiet_emits

lemma f_prologue: "m \<in> set prologue \<Longrightarrow> relates fresh_rel m"
proof (rule f_quiet)
  assume "m \<in> set prologue"
  then have "relates (emits (Collect prologue_call)) m" by (rule emits_prologue_calls)
  moreover have "Collect prologue_call \<subseteq> Collect quiet_call"
  proof
    fix c assume "c \<in> Collect prologue_call"
    then show "c \<in> Collect quiet_call" by (cases c) simp_all
  qed
  ultimately show "relates (emits (Collect quiet_call)) m"
    unfolding relates_def using emits_mono by blast
qed

lemma f_finally_block: "relates fresh_rel finally_block"
proof (rule f_quiet)
  have "quiet_call c" if "c \<in> set (attempted w t (closes_due s))" for c w t s
  proof -
    from that attempted_subset have "c \<in> set (closes_due s)" by blast
    then have "teardown_call c" by (rule closes_due_teardown)
    then show ?thesis by (cases c) simp_all
  qed
  then show "relates (emits (Collect quiet_call)) finally_block"
    unfolding relates_def emits_def by (auto simp: finally_block_eq)
qed

lemma f_goto_step: "relates fresh_rel (goto_step url)"
  by (rule f_quiet) (rule q_goto_step [OF e_quiet])

lemma f_scroll_step: "relates fresh_rel scroll_step"
  by (rule f_quiet) (rule q_scroll_step [OF e_quiet])

lemma f_asyncio_sleep: "relates fresh_rel (asyncio_sleep n)"
  by (rule f_quiet) (rule q_asyncio_sleep [OF e_quiet])

lemma f_assert_ret: "relates fresh_rel (py_assert (ret b) msg)"
  by (rule f_quiet) (simp add: q_basic e_quiet)

lemma f_frame_visible: "relates fresh_rel (frame_visible sel msg)"
  by (rule f_quiet) (rule q_frame_visible [OF e_quiet])

lemma f_frame_count_positive: "relates fresh_rel (frame_count_positive sel)"
  by (rule f_quiet) (rule q_frame_count_positive [OF e_quiet])

lemma f_dashboard_assert: "relates fresh_rel (py_assert on_recruiter_dashboard msg)"
  by (rule f_quiet) (simp add: q_steps e_quiet)

lemma f_tc016_checks: "relates fresh_rel tc016_checks"
  by (rule f_quiet) (rule q_tc016_checks [OF e_quiet])

lemma f_tc013_build_checks: "m \<in> set tc013_build_checks \<Longrightarrow> relates fresh_rel m"
  by (rule f_quiet) (auto simp: tc013_build_checks_def q_steps e_quiet)

lemmas f_steps = f_last_page f_click_step f_fill_step f_goto_step f_scroll_step
  f_asyncio_sleep f_assert_ret f_frame_visible f_frame_count_positive f_dashboard_assert
  f_tc016_checks

lemma f_scripts:
  assumes "steps \<in> set [tc001_steps, tc002_steps, tc007_steps, tc011_steps,
      tc013_build_steps, tc013_role_actions, tc015_steps, tc016_steps]"
    and "m \<in> set steps"
  shows "relates fresh_rel m"
proof -
  have "m \<in> set tc001_steps \<Longrightarrow> relates fresh_rel m"
    by (auto simp: tc001_steps_def f_steps)
  moreover have "m \<in> set tc002_steps \<Longrightarrow> relates fresh_rel m"
    by (auto simp: tc002_steps_def tc002_actions_def tc002_checks_def f_steps)
  moreover have "m \<in> set tc007_steps \<Longrightarrow> relates fresh_rel m"
    by (auto simp: tc007_steps_def tc007_actions_def tc007_checks_def f_steps)
  moreover have "m \<in> set tc011_steps \<Longrightarrow> relates fresh_rel m"
    by (auto simp: tc011_steps_def f_steps)
  moreover have "m \<in> set tc013_build_steps \<Longrightarrow> relates fresh_rel m"
    by (auto simp: tc013_build_steps_def f_steps f_tc013_build_checks)
  moreover have "m \<in> set tc013_role_actions \<Longrightarrow> relates fresh_rel m"
    by (auto simp: tc013_role_actions_def f_steps)
  moreover have "m \<in> set tc015_steps \<Longrightarrow> relates fresh_rel m"
    by (auto simp: tc015_steps_def f_steps)
  moreover have "m \<in> set tc016_steps \<Longrightarrow> relates fresh_rel m"
    by (auto simp: tc016_steps_def f_steps)
  ultimately show ?thesis
    using assms by auto
qed

lemma relates_try_finally:
  assumes "preorder_on_states R" and "relates R body" and "relates R fin"
  shows "relates R (try_finally body fin)"
  unfolding relates_def
proof (intro allI)
  fix w s
  obtain r s1 where b: "body w s = (r, s1)" by (cases "body w s")
  have "snd (try_finally body fin w s) = snd (fin w s1)"
    by (simp add: try_finally_def b split: prod.splits sum.splits)
  moreover from relatesD [OF assms(2), of w s] b have "R w s s1" by simp
  moreover from relatesD [OF assms(3), of w s1] have "R w s1 (snd (fin w s1))" .
  ultimately show "R w s (snd (try_finally body fin w s))"
    using assms(1) unfolding preorder_on_states_def by metis
qed

lemma run_is_fresh:
  assumes "steps \<in> set [tc001_steps, tc002_steps, tc007_steps, tc011_steps,
      tc013_build_steps, tc013_role_actions, tc015_steps, tc016_steps]"
  shows "fresh_from w 0 None (trace (snd (asyncio_run steps w)))"
proof -
  have "relates fresh_rel (seq_all (prologue @ steps))"
  proof (rule relates_seq_all [OF preorder_fresh_rel])
    fix m assume "m \<in> set (prologue @ steps)"
    then consider "m \<in> set prologue" | "m \<in> set steps" by auto
    then show "relates fresh_rel m"
      by cases (simp_all add: f_prologue f_scripts [OF assms])
  qed
  then have "relates fresh_rel (run_test steps)"
    unfolding run_test_def
    by (intro relates_try_finally preorder_fresh_rel f_finally_block)
  from relatesD [OF this, of w init_state] show ?thesis
    by (auto simp: fresh_rel_def asyncio_run_def init_state_def)
qed

lemma click_step_ignores_frame:
  "fst (click_step path w (s\<lparr>frame_var := x\<rparr>)) = fst (click_step path w s)
   \<and> trace (snd (click_step path w (s\<lparr>frame_var := x\<rparr>))) = trace (snd (click_step path w s))"
  by (simp add: click_step_def Let_def last_page_def bind_def sync_def raise_def assign_def
      log_def get_frame_def get_page_def await_def split: list.splits option.splits sum.splits)

lemma fill_step_ignores_frame:
  "fst (fill_step path v w (s\<lparr>frame_var := x\<rparr>)) = fst (fill_step path v w s)
   \<and> trace (snd (fill_step path v w (s\<lparr>frame_var := x\<rparr>))) = trace (snd (fill_step path v w s))"
  by (simp add: fill_step_def Let_def last_page_def bind_def sync_def raise_def assign_def
      log_def get_frame_def get_page_def await_def split: list.splits option.splits sum.splits)

text \<open>
  C8, as amended.  Every generated click or fill step reads \<^verbatim>\<open>context.pages[-1]\<close> itself,
  builds its locator on the page just read, and acts on that locator: what the step does
  does not depend on the \<^verbatim>\<open>frame\<close> an earlier step left, and no locator outlives its step.
  In every run of TC001, TC002, TC007, TC011, TC013 System Build, TC015 and TC016, and of
  the step sequence of TC013 Role Based Dashboard, each click and fill acts on the page
  that was last in \<^verbatim>\<open>context.pages\<close> when its own step read it.  (Locators are lazy: the
  browser looks the element up when the click or fill is made.)  The assertion section of
  TC013 Role Based Dashboard is not built that way.
\<close>

theorem generated_steps_resolve_afresh:
  "(steps \<in> set [tc001_steps, tc002_steps, tc007_steps, tc011_steps, tc013_build_steps,
        tc013_role_actions, tc015_steps, tc016_steps] \<longrightarrow>
      fresh_from w 0 None (trace (snd (asyncio_run steps w))))
   \<and> fst (click_step path w (s\<lparr>frame_var := x\<rparr>)) = fst (click_step path w s)
   \<and> trace (snd (click_step path w (s\<lparr>frame_var := x\<rparr>))) = trace (snd (click_step path w s))
   \<and> fst (fill_step path v w (s\<lparr>frame_var := x\<rparr>)) = fst (fill_step path v w s)
   \<and> trace (snd (fill_step path v w (s\<lparr>frame_var := x\<rparr>)))
       = trace (snd (fill_step path v w s))"
  using run_is_fresh click_step_ignores_frame fill_step_ignores_frame by blast

theorem generated_steps_resolve_afresh_witness:
  \<open>tc002_steps \<in> set [tc001_steps, tc002_steps, tc007_steps, tc011_steps, tc013_build_steps,
        tc013_role_actions, tc015_steps, tc016_steps]
   \<and> fresh_from (popup_after 20) 0 None (trace (snd (asyncio_run tc002_steps (popup_after 20))))
   \<and> trace (snd (asyncio_run tc002_steps (popup_after 20))) ! 20 =
       Click (Nth (Locator (OfPage 0) submit_button) 0) (Some 5000)
   \<and> trace (snd (asyncio_run tc002_steps (popup_after 20))) ! 23 =
       Click (Nth (Locator (OfPage 1) ''xpath=html/body/div/main/div/div/div[2]/form[2]/button'') 0)
         (Some 5000)\<close>
proof -
  have \<open>trace (snd (asyncio_run tc002_steps (popup_after 20))) ! 20 =
       Click (Nth (Locator (OfPage 0) submit_button) 0) (Some 5000)
   \<and> trace (snd (asyncio_run tc002_steps (popup_after 20))) ! 23 =
       Click (Nth (Locator (OfPage 1) ''xpath=html/body/div/main/div/div/div[2]/form[2]/button'') 0)
         (Some 5000)\<close>
    by (simp add: run_defs world_defs tc002_steps_def tc002_actions_def
        tc002_checks_def frame_visible_def on_recruiter_dashboard_def sublist_code)
  with generated_steps_resolve_afresh [of tc002_steps "popup_after 20"] show ?thesis
    by simp
qed

text \<open>
  The claim as stated fails in the assertion section of TC013 Role Based Dashboard (lines
  115 to 138): \<^verbatim>\<open>logout_button\<close> is built once, on the \<^verbatim>\<open>frame\<close> that the last step left, and
  clicked twice.  When a second page has opened in the meantime, both clicks still go to
  the first page.
\<close>

theorem logout_clicks_reuse_locator_counterexample:
  \<open>trace (snd (asyncio_run tc013_role_steps (popup_after 45))) ! 49 =
     Click (Locator (OfPage 0) ''xpath=//button[text()="Logout"]'') None
   \<and> trace (snd (asyncio_run tc013_role_steps (popup_after 45))) ! 55 =
     Click (Locator (OfPage 0) ''xpath=//button[text()="Logout"]'') None
   \<and> last (pages_at (popup_after 45) 49 ContextPages) = 1
   \<and> last (pages_at (popup_after 45) 55 ContextPages) = 1
   \<and> \<not> fresh_from (popup_after 45) 0 None
         (trace (snd (asyncio_run tc013_role_steps (popup_after 45))))\<close>
  by (simp add: run_defs world_defs tc013_role_steps_def tc013_role_actions_def
      tc013_role_checks_def count_positive_def)


end
